theory Spec2Isabelle
  imports Main "HOL-Library.Word"
begin

unbundle bit_operations_syntax

section \<open>Machine types, status codes and constants\<close>

type_synonym u8 = "8 word"
type_synonym u16 = "16 word"
type_synonym u32 = "32 word"

text \<open>The return codes of the HAL, of the flash driver (w25q128.h) and of the protocol
  engine (uart\_bootloader.h).\<close>

datatype HAL_StatusTypeDef = HAL_OK | HAL_ERROR | HAL_BUSY | HAL_TIMEOUT

datatype W25Q128_Status_t = W25Q128_OK | W25Q128_ERROR | W25Q128_BUSY | W25Q128_TIMEOUT

datatype BOOT_Status_t = BOOT_OK | BOOT_ERROR | BOOT_TIMEOUT | BOOT_CRC_ERR

text \<open>w25q128.h: the opcodes the driver uses, the geometry, the status bit, the timeout.\<close>

abbreviation W25Q128_CMD_WRITE_ENABLE :: u8 where "W25Q128_CMD_WRITE_ENABLE \<equiv> 0x06"
abbreviation W25Q128_CMD_WRITE_DISABLE :: u8 where "W25Q128_CMD_WRITE_DISABLE \<equiv> 0x04"
abbreviation W25Q128_CMD_READ_STATUS_REG1 :: u8 where "W25Q128_CMD_READ_STATUS_REG1 \<equiv> 0x05"
abbreviation W25Q128_CMD_PAGE_PROGRAM :: u8 where "W25Q128_CMD_PAGE_PROGRAM \<equiv> 0x02"
abbreviation W25Q128_CMD_BLOCK_ERASE_64KB :: u8 where "W25Q128_CMD_BLOCK_ERASE_64KB \<equiv> 0xD8"
abbreviation W25Q128_CMD_SECTOR_ERASE_4KB :: u8 where "W25Q128_CMD_SECTOR_ERASE_4KB \<equiv> 0x20"
abbreviation W25Q128_CMD_CHIP_ERASE :: u8 where "W25Q128_CMD_CHIP_ERASE \<equiv> 0xC7"
abbreviation W25Q128_CMD_POWER_DOWN :: u8 where "W25Q128_CMD_POWER_DOWN \<equiv> 0xB9"
abbreviation W25Q128_CMD_READ_DATA :: u8 where "W25Q128_CMD_READ_DATA \<equiv> 0x03"
abbreviation W25Q128_CMD_RELEASE_POWER_DOWN :: u8 where "W25Q128_CMD_RELEASE_POWER_DOWN \<equiv> 0xAB"
abbreviation W25Q128_CMD_MANUFACTURER_DEVICE_ID :: u8 where
  "W25Q128_CMD_MANUFACTURER_DEVICE_ID \<equiv> 0x90"
abbreviation W25Q128_CMD_JEDEC_ID :: u8 where "W25Q128_CMD_JEDEC_ID \<equiv> 0x9F"

abbreviation W25Q128_PAGE_SIZE :: nat where "W25Q128_PAGE_SIZE \<equiv> 256"
abbreviation W25Q128_SECTOR_SIZE :: nat where "W25Q128_SECTOR_SIZE \<equiv> 4096"
abbreviation W25Q128_TOTAL_SIZE :: nat where "W25Q128_TOTAL_SIZE \<equiv> 16 * 1024 * 1024"
abbreviation W25Q128_STATUS_BUSY :: u8 where "W25Q128_STATUS_BUSY \<equiv> 0x01"
abbreviation W25Q128_TIMEOUT_MS :: nat where "W25Q128_TIMEOUT_MS \<equiv> 1000"

text \<open>uart\_bootloader.h: markers, acknowledgement bytes, command codes, limits.\<close>

abbreviation BOOT_START_MARKER1 :: u8 where "BOOT_START_MARKER1 \<equiv> 0xAA"
abbreviation BOOT_START_MARKER2 :: u8 where "BOOT_START_MARKER2 \<equiv> 0x55"
abbreviation BOOT_ACK :: u8 where "BOOT_ACK \<equiv> 0x79"
abbreviation BOOT_NACK :: u8 where "BOOT_NACK \<equiv> 0x1F"
abbreviation BOOT_CMD_WRITE :: u8 where "BOOT_CMD_WRITE \<equiv> 0x01"
abbreviation BOOT_CMD_READ :: u8 where "BOOT_CMD_READ \<equiv> 0x02"
abbreviation BOOT_CMD_ERASE_SECTOR :: u8 where "BOOT_CMD_ERASE_SECTOR \<equiv> 0x03"
abbreviation BOOT_CMD_ERASE_CHIP :: u8 where "BOOT_CMD_ERASE_CHIP \<equiv> 0x04"
abbreviation BOOT_CMD_GET_INFO :: u8 where "BOOT_CMD_GET_INFO \<equiv> 0x05"
abbreviation BOOT_MAX_DATA_SIZE :: nat where "BOOT_MAX_DATA_SIZE \<equiv> 4096"
abbreviation BOOT_TIMEOUT_MS :: nat where "BOOT_TIMEOUT_MS \<equiv> 5000"
abbreviation BOOT_BUFFER_SIZE :: nat where "BOOT_BUFFER_SIZE \<equiv> 256"
abbreviation HAL_MAX_DELAY :: nat where "HAL_MAX_DELAY \<equiv> 0xFFFFFFFF"

section \<open>CRC-16 helper (uart\_bootloader.c)\<close>

text \<open>The body of the inner loop: one conditional shift-and-XOR on the 16-bit accumulator.
  The C expression \<open>(crc << 1) ^ 0x1021\<close> is computed as an \<open>int\<close> and truncated by the
  assignment to \<open>uint16_t\<close>; on \<open>16 word\<close> the shift truncates at once, which is the same.\<close>

definition crc_shift :: "u16 \<Rightarrow> u16" where
  "crc_shift crc = (if crc AND 0x8000 \<noteq> 0 then push_bit 1 crc XOR 0x1021 else push_bit 1 crc)"

text \<open>The body of the outer loop: XOR the byte into the high half, then eight inner steps
  (\<open>j = 0 .. 7\<close>).\<close>

definition crc_update :: "u16 \<Rightarrow> u8 \<Rightarrow> u16" where
  "crc_update crc b = (crc_shift ^^ 8) (crc XOR push_bit 8 (ucast b))"

text \<open>\<open>BOOT_CalculateCRC16(data, length)\<close>: the outer loop runs over \<open>data[0 .. length-1]\<close>.\<close>

definition BOOT_CalculateCRC16 :: "u8 list \<Rightarrow> nat \<Rightarrow> u16" where
  "BOOT_CalculateCRC16 data len = foldl crc_update 0xFFFF (take len data)"

text \<open>The reference the specification words describe, written on natural numbers with the
  16-bit truncation and the test of the high bit spelled out: initial value \<open>0xFFFF\<close>,
  polynomial \<open>0x1021\<close>, most significant bit first, no reflection, no final XOR.\<close>

definition ccitt_false_shift :: "nat \<Rightarrow> nat" where
  "ccitt_false_shift acc =
     (if 32768 \<le> acc mod 65536 then ((2 * acc) mod 65536) XOR 4129 else (2 * acc) mod 65536)"

definition ccitt_false_byte :: "nat \<Rightarrow> nat \<Rightarrow> nat" where
  "ccitt_false_byte acc b = (ccitt_false_shift ^^ 8) (acc XOR (256 * b))"

definition crc16_ccitt_false :: "nat list \<Rightarrow> nat" where
  "crc16_ccitt_false bytes = foldl ccitt_false_byte 65535 bytes"

section \<open>The hardware seen through the HAL\<close>

text \<open>What the driver does to the outside world, in the order it does it: chip-select
  edges, SPI transfers with the bytes and the status the HAL returned, tick readings and
  delays. \<open>WritePageCall a n\<close> records an entry into \<open>W25Q128_WritePage\<close> with its address
  and length arguments, so that the program-page calls of a multi-page write can be read
  off the same log.\<close>

datatype event =
    CsLow
  | CsHigh
  | SpiTx "u8 list" HAL_StatusTypeDef
  | SpiRx "u8 list" HAL_StatusTypeDef
  | Tick u32
  | Delay nat
  | WritePageCall u32 nat

text \<open>The transports are external to the repository. Their state is a script of what they
  will answer and a log of what they were asked:
  \<^item> \<open>uart_in\<close>: the bytes the host sends, not yet received;
  \<^item> \<open>uart_out\<close>: the bytes handed to \<open>HAL_UART_Transmit\<close> so far;
  \<^item> \<open>uart_tx_status\<close>: the status of the coming UART transmissions (\<open>HAL_OK\<close> once used up);
  \<^item> \<open>spi_status\<close>: the status of the coming SPI transfers (\<open>HAL_OK\<close> once used up);
  \<^item> \<open>spi_miso\<close>: the bytes the flash shifts out on the coming receptions (zero once used up);
  \<^item> \<open>ticks\<close>: the coming readings of the millisecond tick (zero once used up);
  \<^item> \<open>bus\<close>: the log of events.
  Every script is a finite list, of any length and content; the theorems below hold for
  all of them. A flash that stays busy while the tick stands still for ever is not among
  the modelled runs: once \<open>spi_miso\<close> is used up the status register reads idle.\<close>

record hw =
  uart_in :: "u8 list"
  uart_out :: "u8 list"
  uart_tx_status :: "HAL_StatusTypeDef list"
  spi_status :: "HAL_StatusTypeDef list"
  spi_miso :: "u8 list"
  ticks :: "u32 list"
  bus :: "event list"

definition next_status :: "HAL_StatusTypeDef list \<Rightarrow> HAL_StatusTypeDef" where
  "next_status ss = (case ss of [] \<Rightarrow> HAL_OK | s # _ \<Rightarrow> s)"

text \<open>Modelled from the spec: the chip-select macros \<open>CS_LOW()\<close> and \<open>CS_HIGH()\<close> expand to
  \<open>HAL_GPIO_WritePin\<close>, whose code is not part of the sources; the model logs the edge.\<close>

definition CS_LOW :: "hw \<Rightarrow> hw" where
  "CS_LOW h = h\<lparr>bus := bus h @ [CsLow]\<rparr>"

definition CS_HIGH :: "hw \<Rightarrow> hw" where
  "CS_HIGH h = h\<lparr>bus := bus h @ [CsHigh]\<rparr>"

text \<open>Modelled from the spec: the blocking SPI primitives "transmit N bytes" and "receive N
  bytes" of the HAL, whose code is not part of the sources. Each call takes its status
  from the script and logs the transfer; a reception takes its bytes from \<open>spi_miso\<close>.\<close>

definition HAL_SPI_Transmit :: "hw \<Rightarrow> u8 list \<Rightarrow> nat \<Rightarrow> nat \<Rightarrow> HAL_StatusTypeDef \<times> hw" where
  "HAL_SPI_Transmit h pData Size Timeout =
     (let st = next_status (spi_status h)
      in (st, h\<lparr>spi_status := tl (spi_status h), bus := bus h @ [SpiTx (take Size pData) st]\<rparr>))"

definition HAL_SPI_Receive :: "hw \<Rightarrow> nat \<Rightarrow> nat \<Rightarrow> HAL_StatusTypeDef \<times> u8 list \<times> hw" where
  "HAL_SPI_Receive h Size Timeout =
     (let st = next_status (spi_status h);
          pData = take Size (spi_miso h @ replicate Size 0)
      in (st, pData, h\<lparr>spi_status := tl (spi_status h), spi_miso := drop Size (spi_miso h),
                        bus := bus h @ [SpiRx pData st]\<rparr>))"

text \<open>Modelled from the spec: the monotonic millisecond tick and the delay of the HAL.\<close>

definition HAL_GetTick :: "hw \<Rightarrow> u32 \<times> hw" where
  "HAL_GetTick h =
     (let t = (case ticks h of [] \<Rightarrow> 0 | t # _ \<Rightarrow> t)
      in (t, h\<lparr>ticks := tl (ticks h), bus := bus h @ [Tick t]\<rparr>))"

definition HAL_Delay :: "hw \<Rightarrow> nat \<Rightarrow> hw" where
  "HAL_Delay h ms = h\<lparr>bus := bus h @ [Delay ms]\<rparr>"

text \<open>Modelled from the spec: the blocking UART primitives of the HAL. A transmission hands
  its bytes to the line and takes its status from the script. A reception of \<open>Size\<close> bytes
  succeeds when the host has sent that many; otherwise it fails with what there was. (With
  \<open>HAL_MAX_DELAY\<close> the real call would wait for bytes that the script does not hold.)\<close>

definition HAL_UART_Transmit :: "hw \<Rightarrow> u8 list \<Rightarrow> nat \<Rightarrow> nat \<Rightarrow> HAL_StatusTypeDef \<times> hw" where
  "HAL_UART_Transmit h pData Size Timeout =
     (let st = next_status (uart_tx_status h)
      in (st, h\<lparr>uart_tx_status := tl (uart_tx_status h),
                 uart_out := uart_out h @ take Size pData\<rparr>))"

definition HAL_UART_Receive :: "hw \<Rightarrow> nat \<Rightarrow> nat \<Rightarrow> HAL_StatusTypeDef \<times> u8 list \<times> hw" where
  "HAL_UART_Receive h Size Timeout =
     (if Size \<le> length (uart_in h)
      then (HAL_OK, take Size (uart_in h), h\<lparr>uart_in := drop Size (uart_in h)\<rparr>)
      else (HAL_TIMEOUT, uart_in h, h\<lparr>uart_in := []\<rparr>))"

section \<open>Flash driver (w25q128.c)\<close>

text \<open>The handle \<open>hflash\<close> points to the SPI peripheral and the chip-select pin; in the
  model it is the hardware state itself. Lengths are \<open>uint32_t\<close> in the source; they are
  never added to here, only compared and subtracted from within range, and are natural
  numbers in the model. Addresses are 32-bit words and wrap around.\<close>

text \<open>The three address bytes after an opcode, most significant first.\<close>

definition addr_bytes :: "u32 \<Rightarrow> u8 list" where
  "addr_bytes address =
     [ucast (drop_bit 16 address AND 0xFF), ucast (drop_bit 8 address AND 0xFF),
      ucast (address AND 0xFF)]"

text \<open>Out-parameters are returned next to the status. No caller reads them when the call
  has failed; the model then returns zeros, or what the failed reception left.\<close>

definition W25Q128_ReadID :: "hw \<Rightarrow> W25Q128_Status_t \<times> u8 \<times> u8 \<times> hw" where
  "W25Q128_ReadID hflash =
     (let cmd = [W25Q128_CMD_MANUFACTURER_DEVICE_ID, 0x00, 0x00, 0x00];
          h = CS_LOW hflash;
          (st, h) = HAL_SPI_Transmit h cmd 4 W25Q128_TIMEOUT_MS
      in if st \<noteq> HAL_OK then (W25Q128_ERROR, 0, 0, CS_HIGH h)
         else (let (st, data, h) = HAL_SPI_Receive h 2 W25Q128_TIMEOUT_MS
               in if st \<noteq> HAL_OK then (W25Q128_ERROR, 0, 0, CS_HIGH h)
                  else (W25Q128_OK, data ! 0, data ! 1, CS_HIGH h)))"

definition W25Q128_ReadJEDECID :: "hw \<Rightarrow> W25Q128_Status_t \<times> u8 list \<times> hw" where
  "W25Q128_ReadJEDECID hflash =
     (let cmd = W25Q128_CMD_JEDEC_ID;
          h = CS_LOW hflash;
          (st, h) = HAL_SPI_Transmit h [cmd] 1 W25Q128_TIMEOUT_MS
      in if st \<noteq> HAL_OK then (W25Q128_ERROR, [0, 0, 0], CS_HIGH h)
         else (let (st, jedec_id, h) = HAL_SPI_Receive h 3 W25Q128_TIMEOUT_MS
               in if st \<noteq> HAL_OK then (W25Q128_ERROR, [0, 0, 0], CS_HIGH h)
                  else (W25Q128_OK, jedec_id, CS_HIGH h)))"

definition W25Q128_ReadStatusRegister :: "hw \<Rightarrow> W25Q128_Status_t \<times> u8 \<times> hw" where
  "W25Q128_ReadStatusRegister hflash =
     (let cmd = W25Q128_CMD_READ_STATUS_REG1;
          h = CS_LOW hflash;
          (st, h) = HAL_SPI_Transmit h [cmd] 1 W25Q128_TIMEOUT_MS
      in if st \<noteq> HAL_OK then (W25Q128_ERROR, 0, CS_HIGH h)
         else (let (st, status, h) = HAL_SPI_Receive h 1 W25Q128_TIMEOUT_MS
               in if st \<noteq> HAL_OK then (W25Q128_ERROR, 0, CS_HIGH h)
                  else (W25Q128_OK, status ! 0, CS_HIGH h)))"

text \<open>The \<open>do ... while\<close> loop of \<open>W25Q128_WaitForWriteEnd\<close>. It goes round again only after
  a status byte with the BUSY bit set, which the flash must have shifted out; the script
  of such bytes is finite, and that is the measure.\<close>

function W25Q128_WaitForWriteEnd_loop :: "u32 \<Rightarrow> hw \<Rightarrow> W25Q128_Status_t \<times> hw" where
  "W25Q128_WaitForWriteEnd_loop timeout hflash =
     (case W25Q128_ReadStatusRegister hflash of (r, status, h) \<Rightarrow>
        if r \<noteq> W25Q128_OK then (W25Q128_ERROR, h)
        else (case HAL_GetTick h of (now, h') \<Rightarrow>
                if now > timeout then (W25Q128_TIMEOUT, h')
                else if status AND W25Q128_STATUS_BUSY \<noteq> 0
                     then W25Q128_WaitForWriteEnd_loop timeout h'
                     else (W25Q128_OK, h')))"
  by pat_completeness auto
termination
proof (relation "measure (\<lambda>(timeout, h). length (spi_miso h))", goal_cases)
  case 1
  show ?case by simp
next
  case (2 timeout hflash r y status h now h')
  have nz: "spi_miso hflash \<noteq> []"
  proof
    assume e: "spi_miso hflash = []"
    from 2 have "status = 0"
      by (auto simp: W25Q128_ReadStatusRegister_def HAL_SPI_Transmit_def HAL_SPI_Receive_def
            CS_LOW_def CS_HIGH_def Let_def e split: if_splits)
    with 2 show False by simp
  qed
  from 2 have "spi_miso h' = tl (spi_miso hflash)"
    by (auto simp: W25Q128_ReadStatusRegister_def HAL_SPI_Transmit_def HAL_SPI_Receive_def
          HAL_GetTick_def CS_LOW_def CS_HIGH_def Let_def drop_Suc split: if_splits)
  with nz show ?case by (cases "spi_miso hflash") auto
qed

definition W25Q128_WaitForWriteEnd :: "hw \<Rightarrow> W25Q128_Status_t \<times> hw" where
  "W25Q128_WaitForWriteEnd hflash =
     (let (now, h) = HAL_GetTick hflash;
          timeout = now + 5000
      in W25Q128_WaitForWriteEnd_loop timeout h)"

definition W25Q128_WriteEnable :: "hw \<Rightarrow> W25Q128_Status_t \<times> hw" where
  "W25Q128_WriteEnable hflash =
     (let cmd = W25Q128_CMD_WRITE_ENABLE;
          h = CS_LOW hflash;
          (st, h) = HAL_SPI_Transmit h [cmd] 1 W25Q128_TIMEOUT_MS
      in if st \<noteq> HAL_OK then (W25Q128_ERROR, CS_HIGH h)
         else (W25Q128_OK, CS_HIGH h))"

definition W25Q128_WriteDisable :: "hw \<Rightarrow> W25Q128_Status_t \<times> hw" where
  "W25Q128_WriteDisable hflash =
     (let cmd = W25Q128_CMD_WRITE_DISABLE;
          h = CS_LOW hflash;
          (st, h) = HAL_SPI_Transmit h [cmd] 1 W25Q128_TIMEOUT_MS
      in if st \<noteq> HAL_OK then (W25Q128_ERROR, CS_HIGH h)
         else (W25Q128_OK, CS_HIGH h))"

definition W25Q128_Read :: "hw \<Rightarrow> u32 \<Rightarrow> nat \<Rightarrow> W25Q128_Status_t \<times> u8 list \<times> hw" where
  "W25Q128_Read hflash address len =
     (let cmd = W25Q128_CMD_READ_DATA # addr_bytes address;
          h = CS_LOW hflash;
          (st, h) = HAL_SPI_Transmit h cmd 4 W25Q128_TIMEOUT_MS
      in if st \<noteq> HAL_OK then (W25Q128_ERROR, replicate len 0, CS_HIGH h)
         else (let (st, buffer, h) = HAL_SPI_Receive h len W25Q128_TIMEOUT_MS
               in if st \<noteq> HAL_OK then (W25Q128_ERROR, buffer, CS_HIGH h)
                  else (W25Q128_OK, buffer, CS_HIGH h)))"

text \<open>\<open>W25Q128_WritePage\<close>. The first line of the model is not in the source: it logs the
  call with its address and length.\<close>

definition W25Q128_WritePage :: "hw \<Rightarrow> u32 \<Rightarrow> u8 list \<Rightarrow> nat \<Rightarrow> W25Q128_Status_t \<times> hw" where
  "W25Q128_WritePage hflash address buffer len =
     (let h = hflash\<lparr>bus := bus hflash @ [WritePageCall address len]\<rparr>
      in if len > W25Q128_PAGE_SIZE then (W25Q128_ERROR, h)
         else (let (r, h) = W25Q128_WriteEnable h
               in if r \<noteq> W25Q128_OK then (W25Q128_ERROR, h)
                  else (let cmd = W25Q128_CMD_PAGE_PROGRAM # addr_bytes address;
                            h = CS_LOW h;
                            (st, h) = HAL_SPI_Transmit h cmd 4 W25Q128_TIMEOUT_MS
                        in if st \<noteq> HAL_OK then (W25Q128_ERROR, CS_HIGH h)
                           else (let (st, h) = HAL_SPI_Transmit h buffer len W25Q128_TIMEOUT_MS
                                 in if st \<noteq> HAL_OK then (W25Q128_ERROR, CS_HIGH h)
                                    else W25Q128_WaitForWriteEnd (CS_HIGH h)))))"

text \<open>The \<open>while (remaining > 0)\<close> loop of \<open>W25Q128_Write\<close>, on the loop variables
  \<open>current_address\<close>, \<open>current_buffer\<close> and \<open>remaining\<close>.\<close>

function W25Q128_Write_loop :: "hw \<Rightarrow> u32 \<Rightarrow> u8 list \<Rightarrow> nat \<Rightarrow> W25Q128_Status_t \<times> hw" where
  "W25Q128_Write_loop hflash current_address current_buffer remaining =
     (if remaining > 0 then
        (let page_offset = unat current_address mod W25Q128_PAGE_SIZE;
             write_length = W25Q128_PAGE_SIZE - page_offset;
             write_length = (if write_length > remaining then remaining else write_length)
         in case W25Q128_WritePage hflash current_address current_buffer write_length of
              (r, h) \<Rightarrow>
                if r \<noteq> W25Q128_OK then (W25Q128_ERROR, h)
                else W25Q128_Write_loop h (current_address + of_nat write_length)
                       (drop write_length current_buffer) (remaining - write_length))
      else (W25Q128_OK, hflash))"
  by pat_completeness auto
termination
  by (relation "measure (\<lambda>(h, a, b, remaining). remaining)") (auto split: if_splits)

definition W25Q128_Write :: "hw \<Rightarrow> u32 \<Rightarrow> u8 list \<Rightarrow> nat \<Rightarrow> W25Q128_Status_t \<times> hw" where
  "W25Q128_Write hflash address buffer len = W25Q128_Write_loop hflash address buffer len"

definition W25Q128_EraseSector :: "hw \<Rightarrow> u32 \<Rightarrow> W25Q128_Status_t \<times> hw" where
  "W25Q128_EraseSector hflash sector_address =
     (let (r, h) = W25Q128_WriteEnable hflash
      in if r \<noteq> W25Q128_OK then (W25Q128_ERROR, h)
         else (let cmd = W25Q128_CMD_SECTOR_ERASE_4KB # addr_bytes sector_address;
                   h = CS_LOW h;
                   (st, h) = HAL_SPI_Transmit h cmd 4 W25Q128_TIMEOUT_MS
               in if st \<noteq> HAL_OK then (W25Q128_ERROR, CS_HIGH h)
                  else W25Q128_WaitForWriteEnd (CS_HIGH h)))"

definition W25Q128_EraseBlock64KB :: "hw \<Rightarrow> u32 \<Rightarrow> W25Q128_Status_t \<times> hw" where
  "W25Q128_EraseBlock64KB hflash block_address =
     (let (r, h) = W25Q128_WriteEnable hflash
      in if r \<noteq> W25Q128_OK then (W25Q128_ERROR, h)
         else (let cmd = W25Q128_CMD_BLOCK_ERASE_64KB # addr_bytes block_address;
                   h = CS_LOW h;
                   (st, h) = HAL_SPI_Transmit h cmd 4 W25Q128_TIMEOUT_MS
               in if st \<noteq> HAL_OK then (W25Q128_ERROR, CS_HIGH h)
                  else W25Q128_WaitForWriteEnd (CS_HIGH h)))"

definition W25Q128_EraseChip :: "hw \<Rightarrow> W25Q128_Status_t \<times> hw" where
  "W25Q128_EraseChip hflash =
     (let cmd = W25Q128_CMD_CHIP_ERASE;
          (r, h) = W25Q128_WriteEnable hflash
      in if r \<noteq> W25Q128_OK then (W25Q128_ERROR, h)
         else (let h = CS_LOW h;
                   (st, h) = HAL_SPI_Transmit h [cmd] 1 W25Q128_TIMEOUT_MS
               in if st \<noteq> HAL_OK then (W25Q128_ERROR, CS_HIGH h)
                  else W25Q128_WaitForWriteEnd (CS_HIGH h)))"

definition W25Q128_PowerDown :: "hw \<Rightarrow> W25Q128_Status_t \<times> hw" where
  "W25Q128_PowerDown hflash =
     (let cmd = W25Q128_CMD_POWER_DOWN;
          h = CS_LOW hflash;
          (st, h) = HAL_SPI_Transmit h [cmd] 1 W25Q128_TIMEOUT_MS
      in if st \<noteq> HAL_OK then (W25Q128_ERROR, CS_HIGH h)
         else (W25Q128_OK, CS_HIGH h))"

definition W25Q128_WakeUp :: "hw \<Rightarrow> W25Q128_Status_t \<times> hw" where
  "W25Q128_WakeUp hflash =
     (let cmd = W25Q128_CMD_RELEASE_POWER_DOWN;
          h = CS_LOW hflash;
          (st, h) = HAL_SPI_Transmit h [cmd] 1 W25Q128_TIMEOUT_MS
      in if st \<noteq> HAL_OK then (W25Q128_ERROR, CS_HIGH h)
         else (W25Q128_OK, HAL_Delay (CS_HIGH h) 1))"

definition W25Q128_Init :: "hw \<Rightarrow> hw" where
  "W25Q128_Init hflash =
     (let h = CS_HIGH hflash;
          h = HAL_Delay h 100;
          (r, h) = W25Q128_WakeUp h
      in h)"

section \<open>Protocol engine (uart\_bootloader.c)\<close>

text \<open>The session record. The handles \<open>huart\<close> and \<open>hflash\<close> point to the transports; in the
  model the record holds their state in \<open>io\<close>.\<close>

record BOOT_Handle_t =
  io :: hw
  rx_buffer :: "u8 list"
  total_bytes_written :: u32
  total_bytes_read :: u32

definition BOOT_Init :: "BOOT_Handle_t \<Rightarrow> hw \<Rightarrow> BOOT_Handle_t" where
  "BOOT_Init hboot h =
     hboot\<lparr>io := h, total_bytes_written := 0, total_bytes_read := 0,
           rx_buffer := replicate BOOT_BUFFER_SIZE 0\<rparr>"

definition BOOT_SendResponse :: "BOOT_Handle_t \<Rightarrow> u8 \<Rightarrow> BOOT_Status_t \<times> BOOT_Handle_t" where
  "BOOT_SendResponse hboot response =
     (let (st, h) = HAL_UART_Transmit (io hboot) [response] 1 BOOT_TIMEOUT_MS
      in if st \<noteq> HAL_OK then (BOOT_ERROR, hboot\<lparr>io := h\<rparr>)
         else (BOOT_OK, hboot\<lparr>io := h\<rparr>))"

definition BOOT_SendData ::
  "BOOT_Handle_t \<Rightarrow> u8 list \<Rightarrow> nat \<Rightarrow> BOOT_Status_t \<times> BOOT_Handle_t" where
  "BOOT_SendData hboot data len =
     (let (st, h) = HAL_UART_Transmit (io hboot) data len BOOT_TIMEOUT_MS
      in if st \<noteq> HAL_OK then (BOOT_ERROR, hboot\<lparr>io := h\<rparr>)
         else (BOOT_OK, hboot\<lparr>io := h\<rparr>))"

definition BOOT_ReceiveData ::
  "BOOT_Handle_t \<Rightarrow> nat \<Rightarrow> BOOT_Status_t \<times> u8 list \<times> BOOT_Handle_t" where
  "BOOT_ReceiveData hboot len =
     (let (st, buffer, h) = HAL_UART_Receive (io hboot) len BOOT_TIMEOUT_MS
      in if st \<noteq> HAL_OK then (BOOT_TIMEOUT, buffer, hboot\<lparr>io := h\<rparr>)
         else (BOOT_OK, buffer, hboot\<lparr>io := h\<rparr>))"

text \<open>The little-endian fields of the wire:
  \<open>buffer[0] | buffer[1] << 8 | buffer[2] << 16 | buffer[3] << 24\<close>.\<close>

definition le32 :: "u8 list \<Rightarrow> u32" where
  "le32 buffer =
     ucast (buffer ! 0) OR push_bit 8 (ucast (buffer ! 1)) OR
     push_bit 16 (ucast (buffer ! 2)) OR push_bit 24 (ucast (buffer ! 3))"

definition le16 :: "u8 list \<Rightarrow> u16" where
  "le16 buffer = ucast (buffer ! 0) OR push_bit 8 (ucast (buffer ! 1))"

text \<open>The receive loop of \<open>BOOT_HandleWrite\<close>: \<open>data_buffer\<close> holds the \<open>offset\<close> bytes received
  so far, and each chunk lands behind them. The static \<open>large_buffer\<close> is only ever read
  below \<open>data_length\<close>, where this command has written it.\<close>

function BOOT_HandleWrite_receive ::
  "BOOT_Handle_t \<Rightarrow> u8 list \<Rightarrow> nat \<Rightarrow> BOOT_Status_t \<times> u8 list \<times> BOOT_Handle_t" where
  "BOOT_HandleWrite_receive hboot data_buffer remaining =
     (if remaining > 0 then
        (let chunk_size = (if remaining > BOOT_BUFFER_SIZE then BOOT_BUFFER_SIZE else remaining)
         in case BOOT_ReceiveData hboot chunk_size of
              (r, chunk, hb) \<Rightarrow>
                if r \<noteq> BOOT_OK
                then (BOOT_TIMEOUT, data_buffer, snd (BOOT_SendResponse hb BOOT_NACK))
                else BOOT_HandleWrite_receive hb (data_buffer @ chunk) (remaining - chunk_size))
      else (BOOT_OK, data_buffer, hboot))"
  by pat_completeness auto
termination
  by (relation "measure (\<lambda>(h, d, remaining). remaining)") (auto split: if_splits)

definition BOOT_HandleWrite :: "BOOT_Handle_t \<Rightarrow> BOOT_Status_t \<times> BOOT_Handle_t" where
  "BOOT_HandleWrite hboot =
     (let (r, buffer, hb) = BOOT_ReceiveData hboot 4
      in if r \<noteq> BOOT_OK then (BOOT_TIMEOUT, snd (BOOT_SendResponse hb BOOT_NACK))
         else
     (let data_length = le32 buffer
      in if data_length = 0 \<or> data_length > of_nat BOOT_MAX_DATA_SIZE
         then (BOOT_ERROR, snd (BOOT_SendResponse hb BOOT_NACK))
         else
     (let (r, buffer, hb) = BOOT_ReceiveData hb 4
      in if r \<noteq> BOOT_OK then (BOOT_TIMEOUT, snd (BOOT_SendResponse hb BOOT_NACK))
         else
     (let address = le32 buffer;
          (r, data_buffer, hb) = BOOT_HandleWrite_receive hb [] (unat data_length)
      in if r \<noteq> BOOT_OK then (r, hb)
         else
     (let (r, buffer, hb) = BOOT_ReceiveData hb 2
      in if r \<noteq> BOOT_OK then (BOOT_TIMEOUT, snd (BOOT_SendResponse hb BOOT_NACK))
         else
     (let crc_received = le16 buffer;
          crc_calculated = BOOT_CalculateCRC16 data_buffer (unat data_length)
      in if crc_received \<noteq> crc_calculated
         then (BOOT_CRC_ERR, snd (BOOT_SendResponse hb BOOT_NACK))
         else
     (let (w, h) = W25Q128_Write (io hb) address data_buffer (unat data_length);
          hb = hb\<lparr>io := h\<rparr>
      in if w \<noteq> W25Q128_OK then (BOOT_ERROR, snd (BOOT_SendResponse hb BOOT_NACK))
         else
     (let hb = hb\<lparr>total_bytes_written := total_bytes_written hb + data_length\<rparr>
      in (BOOT_OK, snd (BOOT_SendResponse hb BOOT_ACK))))))))))"

definition BOOT_HandleRead :: "BOOT_Handle_t \<Rightarrow> BOOT_Status_t \<times> BOOT_Handle_t" where
  "BOOT_HandleRead hboot =
     (let (r, buffer, hb) = BOOT_ReceiveData hboot 4
      in if r \<noteq> BOOT_OK then (BOOT_TIMEOUT, snd (BOOT_SendResponse hb BOOT_NACK))
         else
     (let data_length = le32 buffer
      in if data_length = 0 \<or> data_length > of_nat BOOT_MAX_DATA_SIZE
         then (BOOT_ERROR, snd (BOOT_SendResponse hb BOOT_NACK))
         else
     (let (r, buffer, hb) = BOOT_ReceiveData hb 4
      in if r \<noteq> BOOT_OK then (BOOT_TIMEOUT, snd (BOOT_SendResponse hb BOOT_NACK))
         else
     (let address = le32 buffer;
          (w, data_buffer, h) = W25Q128_Read (io hb) address (unat data_length);
          hb = hb\<lparr>io := h\<rparr>
      in if w \<noteq> W25Q128_OK then (BOOT_ERROR, snd (BOOT_SendResponse hb BOOT_NACK))
         else
     (let hb = snd (BOOT_SendResponse hb BOOT_ACK);
          (r, hb) = BOOT_SendData hb data_buffer (unat data_length)
      in if r \<noteq> BOOT_OK then (BOOT_ERROR, hb)
         else
     (let crc_calculated = BOOT_CalculateCRC16 data_buffer (unat data_length);
          buffer = [ucast (crc_calculated AND 0xFF), ucast (drop_bit 8 crc_calculated AND 0xFF)];
          hb = snd (BOOT_SendData hb buffer 2);
          hb = hb\<lparr>total_bytes_read := total_bytes_read hb + data_length\<rparr>
      in (BOOT_OK, hb)))))))"

definition BOOT_HandleEraseSector :: "BOOT_Handle_t \<Rightarrow> BOOT_Status_t \<times> BOOT_Handle_t" where
  "BOOT_HandleEraseSector hboot =
     (let (r, buffer, hb) = BOOT_ReceiveData hboot 4
      in if r \<noteq> BOOT_OK then (BOOT_TIMEOUT, snd (BOOT_SendResponse hb BOOT_NACK))
         else
     (let address = le32 buffer;
          (w, h) = W25Q128_EraseSector (io hb) address;
          hb = hb\<lparr>io := h\<rparr>
      in if w \<noteq> W25Q128_OK then (BOOT_ERROR, snd (BOOT_SendResponse hb BOOT_NACK))
         else (BOOT_OK, snd (BOOT_SendResponse hb BOOT_ACK))))"

definition BOOT_HandleEraseChip :: "BOOT_Handle_t \<Rightarrow> BOOT_Status_t \<times> BOOT_Handle_t" where
  "BOOT_HandleEraseChip hboot =
     (let (w, h) = W25Q128_EraseChip (io hboot);
          hb = hboot\<lparr>io := h\<rparr>
      in if w \<noteq> W25Q128_OK then (BOOT_ERROR, snd (BOOT_SendResponse hb BOOT_NACK))
         else (BOOT_OK, snd (BOOT_SendResponse hb BOOT_ACK)))"

text \<open>The info block: identifiers, then capacity, page size and sector size, each with its
  bytes taken by \<open>& 0xFF\<close> after a shift, low byte first.\<close>

definition BOOT_HandleGetInfo :: "BOOT_Handle_t \<Rightarrow> BOOT_Status_t \<times> BOOT_Handle_t" where
  "BOOT_HandleGetInfo hboot =
     (let (w, manufacturer_id, device_id, h) = W25Q128_ReadID (io hboot);
          hb = hboot\<lparr>io := h\<rparr>
      in if w \<noteq> W25Q128_OK then (BOOT_ERROR, snd (BOOT_SendResponse hb BOOT_NACK))
         else
     (let (w, jedec_id, h) = W25Q128_ReadJEDECID (io hb);
          hb = hb\<lparr>io := h\<rparr>
      in if w \<noteq> W25Q128_OK then (BOOT_ERROR, snd (BOOT_SendResponse hb BOOT_NACK))
         else
     (let capacity = (of_nat W25Q128_TOTAL_SIZE :: u32);
          page_size = (of_nat W25Q128_PAGE_SIZE :: u16);
          sector_size = (of_nat W25Q128_SECTOR_SIZE :: u16);
          info = [manufacturer_id, device_id, jedec_id ! 0, jedec_id ! 1, jedec_id ! 2,
                  ucast (capacity AND 0xFF), ucast (drop_bit 8 capacity AND 0xFF),
                  ucast (drop_bit 16 capacity AND 0xFF), ucast (drop_bit 24 capacity AND 0xFF),
                  ucast (page_size AND 0xFF), ucast (drop_bit 8 page_size AND 0xFF),
                  ucast (sector_size AND 0xFF), ucast (drop_bit 8 sector_size AND 0xFF)];
          hb = snd (BOOT_SendResponse hb BOOT_ACK);
          hb = snd (BOOT_SendData hb info 13)
      in (BOOT_OK, hb))))"

text \<open>One call of \<open>BOOT_Process\<close>: the two marker bytes, the command byte, the dispatch.\<close>

definition BOOT_Process :: "BOOT_Handle_t \<Rightarrow> BOOT_Handle_t" where
  "BOOT_Process hboot =
     (let (st, header, h) = HAL_UART_Receive (io hboot) 2 HAL_MAX_DELAY;
          hb = hboot\<lparr>io := h\<rparr>
      in if st \<noteq> HAL_OK then hb
         else if header ! 0 \<noteq> BOOT_START_MARKER1 \<or> header ! 1 \<noteq> BOOT_START_MARKER2 then hb
         else
     (let (r, command, hb) = BOOT_ReceiveData hb 1
      in if r \<noteq> BOOT_OK then snd (BOOT_SendResponse hb BOOT_NACK)
         else if command ! 0 = BOOT_CMD_WRITE then snd (BOOT_HandleWrite hb)
         else if command ! 0 = BOOT_CMD_READ then snd (BOOT_HandleRead hb)
         else if command ! 0 = BOOT_CMD_ERASE_SECTOR then snd (BOOT_HandleEraseSector hb)
         else if command ! 0 = BOOT_CMD_ERASE_CHIP then snd (BOOT_HandleEraseChip hb)
         else if command ! 0 = BOOT_CMD_GET_INFO then snd (BOOT_HandleGetInfo hb)
         else snd (BOOT_SendResponse hb BOOT_NACK)))"

text \<open>Modelled from the spec: the caller of \<open>BOOT_Process\<close> (the main loop, which is not
  part of the sources) is "a perpetual single-command loop"; \<open>BOOT_Loop n\<close> is its first
  \<open>n\<close> iterations.\<close>

primrec BOOT_Loop :: "nat \<Rightarrow> BOOT_Handle_t \<Rightarrow> BOOT_Handle_t" where
  "BOOT_Loop 0 hboot = hboot"
| "BOOT_Loop (Suc n) hboot = BOOT_Loop n (BOOT_Process hboot)"

section \<open>Traces and what is asked of them\<close>

text \<open>The events an operation adds to the log.\<close>

definition emitted :: "hw \<Rightarrow> hw \<Rightarrow> event list" where
  "emitted h h' = drop (length (bus h)) (bus h')"

subsection \<open>Chip-select discipline\<close>

text \<open>A run over the log with the state of the chip-select line (\<open>True\<close>: asserted, low).
  The run fails (\<open>None\<close>) when the line is asserted twice, released while it is not
  asserted, or when a byte travels while it is not asserted; otherwise it gives the state
  of the line at the end.\<close>

fun cs_run :: "bool \<Rightarrow> event list \<Rightarrow> bool option" where
  "cs_run asserted [] = Some asserted"
| "cs_run asserted (CsLow # evs) = (if asserted then None else cs_run True evs)"
| "cs_run asserted (CsHigh # evs) = (if asserted then cs_run False evs else None)"
| "cs_run asserted (SpiTx bytes st # evs) = (if asserted then cs_run True evs else None)"
| "cs_run asserted (SpiRx bytes st # evs) = (if asserted then cs_run True evs else None)"
| "cs_run asserted (Tick t # evs) = cs_run asserted evs"
| "cs_run asserted (Delay ms # evs) = cs_run asserted evs"
| "cs_run asserted (WritePageCall a n # evs) = cs_run asserted evs"

text \<open>An operation keeps the discipline when its events, met with the line released,
  never break these rules and leave the line released.\<close>

definition cs_disciplined :: "event list \<Rightarrow> bool" where
  "cs_disciplined evs = (cs_run False evs = Some False)"

subsection \<open>The busy poll\<close>

text \<open>The traces of the busy poll after the first reading of the tick, with the status
  each one ends in, for a given deadline. Every round is one read of the status register
  (opcode \<open>0x05\<close>, one byte back) and then, when the read went through, one reading of the
  tick: a failed transfer ends the poll with the transport failure; a tick beyond the
  deadline ends it with the timeout; a status byte with BUSY clear ends it with success; a
  status byte with BUSY set, within the deadline, is followed by another round.\<close>

inductive busy_poll :: "u32 \<Rightarrow> event list \<Rightarrow> W25Q128_Status_t \<Rightarrow> bool"
  for deadline :: u32 where
  transmit_failed:
    "st \<noteq> HAL_OK \<Longrightarrow>
     busy_poll deadline [CsLow, SpiTx [0x05] st, CsHigh] W25Q128_ERROR"
| receive_failed:
    "st \<noteq> HAL_OK \<Longrightarrow>
     busy_poll deadline [CsLow, SpiTx [0x05] HAL_OK, SpiRx [status] st, CsHigh] W25Q128_ERROR"
| overrun:
    "now > deadline \<Longrightarrow>
     busy_poll deadline
       [CsLow, SpiTx [0x05] HAL_OK, SpiRx [status] HAL_OK, CsHigh, Tick now] W25Q128_TIMEOUT"
| idle:
    "\<not> now > deadline \<Longrightarrow> status AND 0x01 = 0 \<Longrightarrow>
     busy_poll deadline
       [CsLow, SpiTx [0x05] HAL_OK, SpiRx [status] HAL_OK, CsHigh, Tick now] W25Q128_OK"
| busy:
    "\<not> now > deadline \<Longrightarrow> status AND 0x01 \<noteq> 0 \<Longrightarrow> busy_poll deadline evs r \<Longrightarrow>
     busy_poll deadline
       ([CsLow, SpiTx [0x05] HAL_OK, SpiRx [status] HAL_OK, CsHigh, Tick now] @ evs) r"

code_pred busy_poll .

text \<open>Some SPI transfer of the trace failed.\<close>

definition spi_failure :: "event list \<Rightarrow> bool" where
  "spi_failure evs =
     (\<exists>e \<in> set evs. case e of SpiTx bytes st \<Rightarrow> st \<noteq> HAL_OK
                           | SpiRx bytes st \<Rightarrow> st \<noteq> HAL_OK | _ \<Rightarrow> False)"

subsection \<open>Write-enable pairing\<close>

text \<open>The opcodes of a trace: the first byte of the first transmission after each
  assertion of chip-select.\<close>

fun spi_commands :: "event list \<Rightarrow> u8 list" where
  "spi_commands (CsLow # SpiTx (c # bs) st # evs) = c # spi_commands evs"
| "spi_commands (e # evs) = spi_commands evs"
| "spi_commands [] = []"

definition needs_write_enable :: "u8 \<Rightarrow> bool" where
  "needs_write_enable c =
     (c = W25Q128_CMD_PAGE_PROGRAM \<or> c = W25Q128_CMD_SECTOR_ERASE_4KB \<or>
      c = W25Q128_CMD_BLOCK_ERASE_64KB \<or> c = W25Q128_CMD_CHIP_ERASE)"

text \<open>A scan over the opcodes with the number \<open>n\<close> of write-enable opcodes met since the
  last other opcode: a program or erase opcode is accepted only when there is exactly one
  write-enable right before it.\<close>

fun write_enable_paired :: "nat \<Rightarrow> u8 list \<Rightarrow> bool" where
  "write_enable_paired n [] = True"
| "write_enable_paired n (c # cs) =
     (if needs_write_enable c then n = 1 \<and> write_enable_paired 0 cs
      else if c = W25Q128_CMD_WRITE_ENABLE then write_enable_paired (Suc n) cs
      else write_enable_paired 0 cs)"

text \<open>The traces of an erase after its write-enable and of a page program, with the
  status each one ends in: the write-enable fails; or it goes through and the command
  (or, for a program, its data) fails; or the whole command goes through and a busy poll
  follows.\<close>

inductive command_trace :: "u8 list \<Rightarrow> event list \<Rightarrow> W25Q128_Status_t \<Rightarrow> bool"
  for cmd :: "u8 list" where
  enable_failed:
    "st \<noteq> HAL_OK \<Longrightarrow>
     command_trace cmd [CsLow, SpiTx [0x06] st, CsHigh] W25Q128_ERROR"
| command_failed:
    "st \<noteq> HAL_OK \<Longrightarrow>
     command_trace cmd
       [CsLow, SpiTx [0x06] HAL_OK, CsHigh, CsLow, SpiTx cmd st, CsHigh] W25Q128_ERROR"
| issued:
    "busy_poll (t0 + 5000) evs r \<Longrightarrow>
     command_trace cmd
       ([CsLow, SpiTx [0x06] HAL_OK, CsHigh, CsLow, SpiTx cmd HAL_OK, CsHigh, Tick t0] @ evs) r"

code_pred command_trace .

inductive program_trace :: "u32 \<Rightarrow> u8 list \<Rightarrow> event list \<Rightarrow> W25Q128_Status_t \<Rightarrow> bool"
  for a :: u32 and data :: "u8 list" where
  enable_failed:
    "st \<noteq> HAL_OK \<Longrightarrow>
     program_trace a data [CsLow, SpiTx [0x06] st, CsHigh] W25Q128_ERROR"
| command_failed:
    "st \<noteq> HAL_OK \<Longrightarrow>
     program_trace a data
       [CsLow, SpiTx [0x06] HAL_OK, CsHigh, CsLow, SpiTx (0x02 # addr_bytes a) st, CsHigh]
       W25Q128_ERROR"
| data_failed:
    "st \<noteq> HAL_OK \<Longrightarrow>
     program_trace a data
       [CsLow, SpiTx [0x06] HAL_OK, CsHigh,
        CsLow, SpiTx (0x02 # addr_bytes a) HAL_OK, SpiTx data st, CsHigh] W25Q128_ERROR"
| issued:
    "busy_poll (t0 + 5000) evs r \<Longrightarrow>
     program_trace a data
       ([CsLow, SpiTx [0x06] HAL_OK, CsHigh,
         CsLow, SpiTx (0x02 # addr_bytes a) HAL_OK, SpiTx data HAL_OK, CsHigh, Tick t0] @ evs) r"

code_pred program_trace .

subsection \<open>Program-page calls\<close>

text \<open>The address and length of each call of \<open>W25Q128_WritePage\<close> in a trace; chunks that
  follow each other from an address on; chunks that are not empty and stay inside one
  256-byte page.\<close>

fun page_calls :: "event list \<Rightarrow> (u32 \<times> nat) list" where
  "page_calls [] = []"
| "page_calls (WritePageCall a n # evs) = (a, n) # page_calls evs"
| "page_calls (e # evs) = page_calls evs"

fun contiguous :: "u32 \<Rightarrow> (u32 \<times> nat) list \<Rightarrow> bool" where
  "contiguous a [] = True"
| "contiguous a ((b, n) # cs) = (b = a \<and> contiguous (a + of_nat n) cs)"

definition page_bounded :: "(u32 \<times> nat) list \<Rightarrow> bool" where
  "page_bounded cs = (\<forall>(a, n) \<in> set cs. 0 < n \<and> unat a mod 256 + n \<le> 256)"

subsection \<open>Example hardware\<close>

text \<open>A flash that answers busy once and idle then, with the tick at 100, 101, 102.\<close>

definition poll_twice :: hw where
  "poll_twice = \<lparr>uart_in = [], uart_out = [], uart_tx_status = [], spi_status = [],
     spi_miso = [0x03, 0x02], ticks = [100, 101, 102], bus = []\<rparr>"

text \<open>A flash that is idle at the first status read, polled from tick \<open>t\<close>: the tick reads
  \<open>t\<close> when the poll starts and \<open>t + 1\<close>, one millisecond later, after the status read.\<close>

definition idle_polled_at :: "u32 \<Rightarrow> hw" where
  "idle_polled_at t = \<lparr>uart_in = [], uart_out = [], uart_tx_status = [], spi_status = [],
     spi_miso = [0x00], ticks = [t, t + 1], bus = []\<rparr>"

text \<open>A flash that is idle at once, on a bus that works.\<close>

definition idle_flash :: hw where
  "idle_flash = \<lparr>uart_in = [], uart_out = [], uart_tx_status = [], spi_status = [],
     spi_miso = [], ticks = [], bus = []\<rparr>"

text \<open>A bus whose first transfer fails.\<close>

definition dead_bus :: hw where
  "dead_bus = \<lparr>uart_in = [], uart_out = [], uart_tx_status = [], spi_status = [HAL_ERROR],
     spi_miso = [], ticks = [], bus = []\<rparr>"

text \<open>A bus whose second transfer, the reception, times out.\<close>

definition receive_fails :: hw where
  "receive_fails = \<lparr>uart_in = [], uart_out = [], uart_tx_status = [],
     spi_status = [HAL_OK, HAL_TIMEOUT], spi_miso = [0xDE, 0xAD], ticks = [], bus = []\<rparr>"

text \<open>A flash that identifies itself as a W25Q128: manufacturer and device identifier
  \<open>EF 17\<close>, JEDEC identifier \<open>EF 40 18\<close>.\<close>

definition w25q128_chip :: hw where
  "w25q128_chip = \<lparr>uart_in = [], uart_out = [], uart_tx_status = [], spi_status = [],
     spi_miso = [0xEF, 0x17, 0xEF, 0x40, 0x18], ticks = [], bus = []\<rparr>"

subsection \<open>Sessions\<close>

text \<open>The session with the bytes the host has sent and the engine has not yet received
  replaced by \<open>bytes\<close>.\<close>

definition host_sends :: "u8 list \<Rightarrow> BOOT_Handle_t \<Rightarrow> BOOT_Handle_t" where
  "host_sends bytes hboot = hboot\<lparr>io := (io hboot)\<lparr>uart_in := bytes\<rparr>\<rparr>"

text \<open>Sessions after \<open>BOOT_Init\<close>, on the idle flash and on the W25Q128.\<close>

definition fresh_session :: BOOT_Handle_t where
  "fresh_session = \<lparr>io = idle_flash, rx_buffer = replicate 256 0,
     total_bytes_written = 0, total_bytes_read = 0\<rparr>"

definition w25q128_session :: BOOT_Handle_t where
  "w25q128_session = \<lparr>io = w25q128_chip, rx_buffer = replicate 256 0,
     total_bytes_written = 0, total_bytes_read = 0\<rparr>"

section \<open>The CRC against its reference\<close>

lemma unat_u16_bound: "unat (c::u16) < 65536"
  using unsigned_less [of c] by simp

lemma unat_double: "unat ((c::u16) * 2) = (2 * unat c) mod 65536"
  by (simp add: unat_word_ariths mult.commute)

lemma high_bit_test: "((c::u16) AND 0x8000 \<noteq> 0) = (32768 \<le> unat c)"
proof -
  have "(c AND 0x8000 \<noteq> 0) = bit c 15"
    using and_exp_eq_0_iff_not_bit [of c 15] by simp
  also have "\<dots> = bit (unat c) 15"
    by (simp add: bit_unsigned_iff)
  also have "\<dots> = (32768 \<le> unat c)"
  proof (cases "32768 \<le> unat c")
    case True
    then have "unat c div 32768 = Suc ((unat c - 32768) div 32768)"
      by (simp add: le_div_geq)
    moreover have "(unat c - 32768) div 32768 = 0"
      using unat_u16_bound [of c] by simp
    ultimately show ?thesis using True by (simp add: bit_iff_odd)
  next
    case False
    then have "unat c div 32768 = 0" by simp
    then show ?thesis using False by (simp add: bit_iff_odd)
  qed
  finally show ?thesis .
qed

lemma unat_crc_shift: "unat (crc_shift c) = ccitt_false_shift (unat c)"
  using unat_u16_bound [of c]
  by (simp add: crc_shift_def ccitt_false_shift_def high_bit_test unat_double unsigned_xor_eq)

lemma unat_crc_shift_pow: "unat ((crc_shift ^^ n) c) = (ccitt_false_shift ^^ n) (unat c)"
  by (induction n) (simp_all add: unat_crc_shift)

lemma unat_high_byte: "unat (push_bit 8 (ucast (b::u8)) :: u16) = 256 * unat b"
proof -
  have b: "unat b < 256" using unsigned_less [of b] by simp
  have u: "unat (ucast b :: u16) = unat b"
    using b by (simp add: unsigned_ucast_eq take_bit_eq_mod)
  have "unat (push_bit 8 (ucast b :: u16)) = unat ((ucast b :: u16) * 256)"
    by (simp add: push_bit_eq_mult)
  also have "\<dots> = (unat b * 256) mod 65536"
    by (simp add: unat_word_ariths u)
  also have "\<dots> = 256 * unat b"
    using b by simp
  finally show ?thesis .
qed

lemma unat_crc_update: "unat (crc_update c b) = ccitt_false_byte (unat c) (unat b)"
  by (simp only: crc_update_def ccitt_false_byte_def unat_crc_shift_pow unsigned_xor_eq
        unat_high_byte)

lemma unat_foldl_crc:
  "unat (foldl crc_update c s) = foldl ccitt_false_byte (unat c) (map unat s)"
  by (induction s arbitrary: c) (simp_all add: unat_crc_update)

lemma funpow8: "(f ^^ 8) x = f (f (f (f (f (f (f (f x)))))))"
  by (simp add: eval_nat_numeral)

lemma crc_check_value:
  "BOOT_CalculateCRC16 [0x31, 0x32, 0x33, 0x34, 0x35, 0x36, 0x37, 0x38, 0x39] 9 = 0x29B1"
  by (simp add: BOOT_CalculateCRC16_def crc_update_def funpow8 crc_shift_def)

lemma crc_refines: "unat (BOOT_CalculateCRC16 s (length s)) = crc16_ccitt_false (map unat s)"
  by (simp add: BOOT_CalculateCRC16_def crc16_ccitt_false_def unat_foldl_crc)

lemma ascii_digits:
  "map (of_nat \<circ> of_char) ''123456789'' =
   [0x31, 0x32, 0x33, 0x34, 0x35, 0x36, 0x37, 0x38, 0x39 :: u8]"
  by simp

text \<open>C9. For every byte sequence \<open>s\<close>, \<open>BOOT_CalculateCRC16\<close> over the whole of \<open>s\<close> is
  the CRC-16/CCITT-FALSE of the reference definition (initial value \<open>0xFFFF\<close>, polynomial
  \<open>0x1021\<close>, most significant bit first, no reflection, no final XOR, each byte XORed into
  the high byte and followed by eight conditional shift-and-XOR steps), and the CRC of the
  ASCII string "123456789" is \<open>0x29B1\<close>.\<close>

theorem crc16_is_ccitt_false:
  "(\<forall>s. unat (BOOT_CalculateCRC16 s (length s)) = crc16_ccitt_false (map unat s)) \<and>
   BOOT_CalculateCRC16 (map (of_nat \<circ> of_char) ''123456789'') 9 = 0x29B1"
proof (intro conjI allI)
  fix s :: "u8 list"
  show "unat (BOOT_CalculateCRC16 s (length s)) = crc16_ccitt_false (map unat s)"
    by (rule crc_refines)
next
  show "BOOT_CalculateCRC16 (map (of_nat \<circ> of_char) ''123456789'') 9 = 0x29B1"
    by (simp only: ascii_digits crc_check_value)
qed

theorem crc16_is_ccitt_false_witness:
  "crc16_ccitt_false [0x31, 0x32, 0x33, 0x34, 0x35, 0x36, 0x37, 0x38, 0x39] = 0x29B1"
proof -
  let ?s = "[0x31, 0x32, 0x33, 0x34, 0x35, 0x36, 0x37, 0x38, 0x39] :: u8 list"
  have len: "length ?s = 9" by simp
  have "unat (BOOT_CalculateCRC16 ?s (length ?s)) = crc16_ccitt_false (map unat ?s)"
    using crc16_is_ccitt_false by blast
  then have "crc16_ccitt_false (map unat ?s) = unat (0x29B1 :: u16)"
    by (simp only: len crc_check_value)
  then show ?thesis by simp
qed

declare W25Q128_WaitForWriteEnd_loop.simps [simp del]

declare W25Q128_Write_loop.simps [simp del]

declare BOOT_HandleWrite_receive.simps [simp del]

section \<open>The busy poll\<close>

lemma emitted_append: "bus h' = bus h @ evs \<Longrightarrow> emitted h h' = evs"
  by (simp add: emitted_def)

lemma status_read_cases:
  obtains
    (tx_fail) st where "st \<noteq> HAL_OK"
      "fst (W25Q128_ReadStatusRegister h) = W25Q128_ERROR"
      "bus (snd (snd (W25Q128_ReadStatusRegister h))) = bus h @ [CsLow, SpiTx [0x05] st, CsHigh]"
  | (rx_fail) status st where "st \<noteq> HAL_OK"
      "fst (W25Q128_ReadStatusRegister h) = W25Q128_ERROR"
      "bus (snd (snd (W25Q128_ReadStatusRegister h))) =
         bus h @ [CsLow, SpiTx [0x05] HAL_OK, SpiRx [status] st, CsHigh]"
  | (ok) status where
      "fst (W25Q128_ReadStatusRegister h) = W25Q128_OK"
      "fst (snd (W25Q128_ReadStatusRegister h)) = status"
      "bus (snd (snd (W25Q128_ReadStatusRegister h))) =
         bus h @ [CsLow, SpiTx [0x05] HAL_OK, SpiRx [status] HAL_OK, CsHigh]"
proof (cases "next_status (spi_status h) = HAL_OK")
  case False
  then show ?thesis
    by (intro tx_fail [of "next_status (spi_status h)"])
       (simp_all add: W25Q128_ReadStatusRegister_def HAL_SPI_Transmit_def CS_LOW_def
          CS_HIGH_def Let_def)
next
  case tx: True
  let ?s = "hd (spi_miso h @ [0])"
  have tk: "take (Suc 0) (spi_miso h @ [0]) = [?s]"
    by (cases "spi_miso h") simp_all
  show ?thesis
  proof (cases "next_status (tl (spi_status h)) = HAL_OK")
    case False
    then show ?thesis using tx tk
      by (intro rx_fail [of "next_status (tl (spi_status h))" ?s])
         (simp_all add: W25Q128_ReadStatusRegister_def HAL_SPI_Transmit_def
            HAL_SPI_Receive_def CS_LOW_def CS_HIGH_def Let_def)
  next
    case True
    then show ?thesis using tx tk
      by (intro ok [of ?s])
         (simp_all add: W25Q128_ReadStatusRegister_def HAL_SPI_Transmit_def
            HAL_SPI_Receive_def CS_LOW_def CS_HIGH_def Let_def)
  qed
qed

lemma tick_bus: "bus (snd (HAL_GetTick h)) = bus h @ [Tick (fst (HAL_GetTick h))]"
  by (simp add: HAL_GetTick_def Let_def)

lemma wait_loop_polls:
  "\<exists>evs. bus (snd (W25Q128_WaitForWriteEnd_loop timeout h)) = bus h @ evs \<and>
         busy_poll timeout evs (fst (W25Q128_WaitForWriteEnd_loop timeout h))"
proof (induction timeout h rule: W25Q128_WaitForWriteEnd_loop.induct)
  case (1 timeout hflash)
  obtain r status h1 where rs: "W25Q128_ReadStatusRegister hflash = (r, status, h1)"
    by (cases "W25Q128_ReadStatusRegister hflash") auto
  obtain now h2 where gt: "HAL_GetTick h1 = (now, h2)"
    by (cases "HAL_GetTick h1") auto
  have b2: "bus h2 = bus h1 @ [Tick now]"
    using tick_bus [of h1] gt by simp
  show ?case
  proof (cases hflash rule: status_read_cases)
    case (tx_fail st)
    then show ?thesis using rs
      by (subst (1 2) W25Q128_WaitForWriteEnd_loop.simps)
         (auto intro: busy_poll.transmit_failed)
  next
    case (rx_fail status' st)
    then show ?thesis using rs
      by (subst (1 2) W25Q128_WaitForWriteEnd_loop.simps)
         (auto intro: busy_poll.receive_failed)
  next
    case (ok status')
    then have r: "r = W25Q128_OK" and s: "status' = status"
      and b1: "bus h1 = bus hflash @ [CsLow, SpiTx [0x05] HAL_OK, SpiRx [status] HAL_OK, CsHigh]"
      using rs by simp_all
    show ?thesis
    proof (cases "now > timeout")
      case True
      then show ?thesis using rs gt r b1 b2
        by (subst (1 2) W25Q128_WaitForWriteEnd_loop.simps)
           (auto intro: busy_poll.overrun)
    next
      case nov: False
      show ?thesis
      proof (cases "status AND 0x01 = 0")
        case True
        then show ?thesis using rs gt r b1 b2 nov
          by (subst (1 2) W25Q128_WaitForWriteEnd_loop.simps)
             (auto intro: busy_poll.idle)
      next
        case False
        from "1.IH" [OF rs [symmetric] refl _ gt [symmetric] nov] r False
        obtain evs where e: "bus (snd (W25Q128_WaitForWriteEnd_loop timeout h2)) = bus h2 @ evs"
          and p: "busy_poll timeout evs (fst (W25Q128_WaitForWriteEnd_loop timeout h2))"
          by auto
        have eq: "W25Q128_WaitForWriteEnd_loop timeout hflash =
                  W25Q128_WaitForWriteEnd_loop timeout h2"
          using rs gt r nov False
          by (subst W25Q128_WaitForWriteEnd_loop.simps) simp
        have "busy_poll timeout
                ([CsLow, SpiTx [0x05] HAL_OK, SpiRx [status] HAL_OK, CsHigh, Tick now] @ evs)
                (fst (W25Q128_WaitForWriteEnd_loop timeout h2))"
          using nov False p by (rule busy_poll.busy)
        then show ?thesis
          unfolding eq using e b2 b1 by auto
      qed
    qed
  qed
qed

lemma busy_poll_first_read:
  "busy_poll d evs r \<Longrightarrow> \<exists>st rest. evs = CsLow # SpiTx [0x05] st # rest"
  by (erule busy_poll.cases) auto

lemma busy_poll_timeout_iff:
  "busy_poll d evs r \<Longrightarrow> (r = W25Q128_TIMEOUT) = (\<exists>now. last evs = Tick now \<and> now > d)"
proof (induction rule: busy_poll.induct)
  case (busy now status evs r)
  from busy.hyps(3) have "evs \<noteq> []"
    by (auto dest: busy_poll_first_read)
  then show ?case using busy.IH by simp
qed auto

lemma busy_poll_error_iff:
  "busy_poll d evs r \<Longrightarrow> (r = W25Q128_ERROR) = spi_failure evs"
  by (induction rule: busy_poll.induct) (auto simp: spi_failure_def)

lemma busy_poll_range:
  "busy_poll d evs r \<Longrightarrow> r = W25Q128_OK \<or> r = W25Q128_ERROR \<or> r = W25Q128_TIMEOUT"
  by (induction rule: busy_poll.induct) auto

lemma wait_trace:
  "\<exists>t0 evs. bus (snd (W25Q128_WaitForWriteEnd h)) = bus h @ Tick t0 # evs \<and>
            busy_poll (t0 + 5000) evs (fst (W25Q128_WaitForWriteEnd h))"
proof -
  obtain now h1 where gt: "HAL_GetTick h = (now, h1)"
    by (cases "HAL_GetTick h") auto
  have b1: "bus h1 = bus h @ [Tick now]"
    using tick_bus [of h] gt by simp
  have w: "W25Q128_WaitForWriteEnd h = W25Q128_WaitForWriteEnd_loop (now + 5000) h1"
    by (simp add: W25Q128_WaitForWriteEnd_def gt)
  from wait_loop_polls [of "now + 5000" h1] obtain evs where
    "bus (snd (W25Q128_WaitForWriteEnd_loop (now + 5000) h1)) = bus h1 @ evs"
    "busy_poll (now + 5000) evs (fst (W25Q128_WaitForWriteEnd_loop (now + 5000) h1))"
    by blast
  then show ?thesis unfolding w using b1 by auto
qed

text \<open>What \<open>W25Q128_WaitForWriteEnd\<close> does, with the deadline as the source computes it,
  the 32-bit sum \<open>t0 + 5000\<close> of the first tick reading and 5000: it begins with a read of
  the status register, before any further reading of the tick; it returns the timeout
  exactly when its last tick reading is greater than that sum, the transport failure
  exactly when an SPI transfer failed, and success otherwise.\<close>

lemma wait_for_write_end_characterised:
  "\<exists>t0 evs.
     bus (snd (W25Q128_WaitForWriteEnd h)) = bus h @ Tick t0 # evs \<and>
     busy_poll (t0 + 5000) evs (fst (W25Q128_WaitForWriteEnd h)) \<and>
     (\<exists>st rest. evs = CsLow # SpiTx [0x05] st # rest) \<and>
     ((fst (W25Q128_WaitForWriteEnd h) = W25Q128_TIMEOUT) =
        (\<exists>now. last evs = Tick now \<and> now > t0 + 5000)) \<and>
     ((fst (W25Q128_WaitForWriteEnd h) = W25Q128_ERROR) = spi_failure evs) \<and>
     (fst (W25Q128_WaitForWriteEnd h) = W25Q128_OK \<or>
      fst (W25Q128_WaitForWriteEnd h) = W25Q128_ERROR \<or>
      fst (W25Q128_WaitForWriteEnd h) = W25Q128_TIMEOUT)"
proof -
  from wait_trace [of h] obtain t0 evs where
    b: "bus (snd (W25Q128_WaitForWriteEnd h)) = bus h @ Tick t0 # evs" and
    p: "busy_poll (t0 + 5000) evs (fst (W25Q128_WaitForWriteEnd h))"
    by blast
  show ?thesis
    using b p busy_poll_first_read [OF p] busy_poll_timeout_iff [OF p]
      busy_poll_error_iff [OF p] busy_poll_range [OF p]
    by blast
qed

lemma poll_twice_run:
  "fst (W25Q128_WaitForWriteEnd poll_twice) = W25Q128_OK \<and>
   bus (snd (W25Q128_WaitForWriteEnd poll_twice)) =
     [Tick 100,
      CsLow, SpiTx [0x05] HAL_OK, SpiRx [0x03] HAL_OK, CsHigh, Tick 101,
      CsLow, SpiTx [0x05] HAL_OK, SpiRx [0x02] HAL_OK, CsHigh, Tick 102]"
  by (simp add: poll_twice_def W25Q128_WaitForWriteEnd_def W25Q128_WaitForWriteEnd_loop.simps
        W25Q128_ReadStatusRegister_def HAL_GetTick_def HAL_SPI_Transmit_def HAL_SPI_Receive_def
        CS_LOW_def CS_HIGH_def next_status_def Let_def)

text \<open>C5 is right and the code is not: the deadline \<open>HAL_GetTick() + 5000\<close> is a 32-bit sum
  and wraps around. Polled from tick \<open>0x1000\<close>, a flash that is idle at the first status
  read gives success. Polled from tick \<open>0xFFFFF000\<close>, within 5000 ms of the wrap, the same
  flash gives the timeout one millisecond after the start: the deadline has wrapped to
  \<open>0x388\<close>, below the tick, although BUSY was read clear and 5000 ms have not passed.\<close>

theorem busy_poll_deadline_wraps:
  "fst (W25Q128_WaitForWriteEnd (idle_polled_at 0x1000)) = W25Q128_OK \<and>
   fst (W25Q128_WaitForWriteEnd (idle_polled_at 0xFFFFF000)) = W25Q128_TIMEOUT \<and>
   bus (snd (W25Q128_WaitForWriteEnd (idle_polled_at 0xFFFFF000))) =
     [Tick 0xFFFFF000,
      CsLow, SpiTx [0x05] HAL_OK, SpiRx [0x00] HAL_OK, CsHigh, Tick 0xFFFFF001] \<and>
   (0xFFFFF000 :: u32) + 5000 = 0x388 \<and>
   unat (0xFFFFF001 :: u32) - unat (0xFFFFF000 :: u32) = 1"
  by (simp add: idle_polled_at_def W25Q128_WaitForWriteEnd_def
        W25Q128_WaitForWriteEnd_loop.simps W25Q128_ReadStatusRegister_def HAL_GetTick_def
        HAL_SPI_Transmit_def HAL_SPI_Receive_def CS_LOW_def CS_HIGH_def next_status_def Let_def)

subsection \<open>What a busy-poll trace looks like\<close>

lemma cs_run_append:
  "cs_run a (xs @ ys) = (case cs_run a xs of None \<Rightarrow> None | Some b \<Rightarrow> cs_run b ys)"
  by (induction a xs rule: cs_run.induct) simp_all

lemma busy_poll_cs: "busy_poll d evs r \<Longrightarrow> cs_run False evs = Some False"
  by (induction rule: busy_poll.induct) simp_all

lemma busy_poll_commands:
  "busy_poll d evs r \<Longrightarrow> \<exists>k. spi_commands evs = replicate (Suc k) 0x05"
proof (induction rule: busy_poll.induct)
  case (busy now status evs r)
  then obtain k where "spi_commands evs = replicate (Suc k) 0x05" by blast
  then have "spi_commands
      ([CsLow, SpiTx [0x05] HAL_OK, SpiRx [status] HAL_OK, CsHigh, Tick now] @ evs) =
      replicate (Suc (Suc k)) 0x05"
    by simp
  then show ?case by blast
next
  case (transmit_failed st)
  have "spi_commands [CsLow, SpiTx [0x05] st, CsHigh] = replicate (Suc 0) 0x05" by simp
  then show ?case by blast
next
  case (receive_failed st status)
  have "spi_commands [CsLow, SpiTx [0x05] HAL_OK, SpiRx [status] st, CsHigh] =
        replicate (Suc 0) 0x05" by simp
  then show ?case by blast
next
  case (overrun now status)
  have "spi_commands [CsLow, SpiTx [0x05] HAL_OK, SpiRx [status] HAL_OK, CsHigh, Tick now] =
        replicate (Suc 0) 0x05" by simp
  then show ?case by blast
next
  case (idle now status)
  have "spi_commands [CsLow, SpiTx [0x05] HAL_OK, SpiRx [status] HAL_OK, CsHigh, Tick now] =
        replicate (Suc 0) 0x05" by simp
  then show ?case by blast
qed

lemma busy_poll_calls: "busy_poll d evs r \<Longrightarrow> page_calls evs = []"
  by (induction rule: busy_poll.induct) simp_all

lemma paired_after_polls:
  "write_enable_paired n (replicate (Suc k) 0x05 @ cs) = write_enable_paired 0 cs"
  by (induction k arbitrary: n) (simp_all add: needs_write_enable_def)

lemma paired_polls: "write_enable_paired n (replicate k 0x05)"
  by (induction k arbitrary: n) (simp_all add: needs_write_enable_def)

lemmas hal_defs = HAL_SPI_Transmit_def HAL_SPI_Receive_def CS_LOW_def CS_HIGH_def HAL_Delay_def

lemma take_addr_bytes [simp]: "take 3 (addr_bytes a) = addr_bytes a"
  by (simp add: addr_bytes_def)

lemma wait_after:
  assumes "bus h1 = bus h @ pre"
  shows "\<exists>t0 evs. bus (snd (W25Q128_WaitForWriteEnd h1)) = bus h @ pre @ Tick t0 # evs \<and>
                  busy_poll (t0 + 5000) evs (fst (W25Q128_WaitForWriteEnd h1))"
  using wait_trace [of h1] assms by auto

lemma write_enable_run:
  "W25Q128_WriteEnable h =
     (if next_status (spi_status h) \<noteq> HAL_OK then W25Q128_ERROR else W25Q128_OK,
      h\<lparr>spi_status := tl (spi_status h),
        bus := bus h @ [CsLow, SpiTx [0x06] (next_status (spi_status h)), CsHigh]\<rparr>)"
  by (simp add: W25Q128_WriteEnable_def hal_defs Let_def)

lemma erase_sector_trace:
  "\<exists>evs. bus (snd (W25Q128_EraseSector h a)) = bus h @ evs \<and>
         command_trace (0x20 # addr_bytes a) evs (fst (W25Q128_EraseSector h a))"
proof (cases "next_status (spi_status h) = HAL_OK")
  case False
  then show ?thesis
    by (auto simp: W25Q128_EraseSector_def write_enable_run hal_defs Let_def
          intro: command_trace.enable_failed)
next
  case we: True
  show ?thesis
  proof (cases "next_status (tl (spi_status h)) = HAL_OK")
    case False
    then show ?thesis using we
      by (auto simp: W25Q128_EraseSector_def write_enable_run hal_defs Let_def
            intro: command_trace.command_failed)
  next
    case True
    let ?pre = "[CsLow, SpiTx [0x06] HAL_OK, CsHigh, CsLow, SpiTx (0x20 # addr_bytes a) HAL_OK, CsHigh]"
    let ?h1 = "h\<lparr>spi_status := tl (tl (spi_status h)), bus := bus h @ ?pre\<rparr>"
    have run: "W25Q128_EraseSector h a = W25Q128_WaitForWriteEnd ?h1"
      using we True
      by (simp add: W25Q128_EraseSector_def write_enable_run hal_defs Let_def)
    from wait_after [of ?h1 h ?pre]
    obtain t0 evs where
      b: "bus (snd (W25Q128_WaitForWriteEnd ?h1)) = bus h @ ?pre @ Tick t0 # evs" and
      p: "busy_poll (t0 + 5000) evs (fst (W25Q128_WaitForWriteEnd ?h1))"
      by auto
    from command_trace.issued [OF p, of "0x20 # addr_bytes a"] b
    show ?thesis unfolding run by auto
  qed
qed

lemma erase_block_trace:
  "\<exists>evs. bus (snd (W25Q128_EraseBlock64KB h a)) = bus h @ evs \<and>
         command_trace (0xD8 # addr_bytes a) evs (fst (W25Q128_EraseBlock64KB h a))"
proof (cases "next_status (spi_status h) = HAL_OK")
  case False
  then show ?thesis
    by (auto simp: W25Q128_EraseBlock64KB_def write_enable_run hal_defs Let_def
          intro: command_trace.enable_failed)
next
  case we: True
  show ?thesis
  proof (cases "next_status (tl (spi_status h)) = HAL_OK")
    case False
    then show ?thesis using we
      by (auto simp: W25Q128_EraseBlock64KB_def write_enable_run hal_defs Let_def
            intro: command_trace.command_failed)
  next
    case True
    let ?pre = "[CsLow, SpiTx [0x06] HAL_OK, CsHigh, CsLow, SpiTx (0xD8 # addr_bytes a) HAL_OK, CsHigh]"
    let ?h1 = "h\<lparr>spi_status := tl (tl (spi_status h)), bus := bus h @ ?pre\<rparr>"
    have run: "W25Q128_EraseBlock64KB h a = W25Q128_WaitForWriteEnd ?h1"
      using we True
      by (simp add: W25Q128_EraseBlock64KB_def write_enable_run hal_defs Let_def)
    from wait_after [of ?h1 h ?pre]
    obtain t0 evs where
      b: "bus (snd (W25Q128_WaitForWriteEnd ?h1)) = bus h @ ?pre @ Tick t0 # evs" and
      p: "busy_poll (t0 + 5000) evs (fst (W25Q128_WaitForWriteEnd ?h1))"
      by auto
    from command_trace.issued [OF p, of "0xD8 # addr_bytes a"] b
    show ?thesis unfolding run by auto
  qed
qed

lemma erase_chip_trace:
  "\<exists>evs. bus (snd (W25Q128_EraseChip h)) = bus h @ evs \<and>
         command_trace ([0xC7]) evs (fst (W25Q128_EraseChip h))"
proof (cases "next_status (spi_status h) = HAL_OK")
  case False
  then show ?thesis
    by (auto simp: W25Q128_EraseChip_def write_enable_run hal_defs Let_def
          intro: command_trace.enable_failed)
next
  case we: True
  show ?thesis
  proof (cases "next_status (tl (spi_status h)) = HAL_OK")
    case False
    then show ?thesis using we
      by (auto simp: W25Q128_EraseChip_def write_enable_run hal_defs Let_def
            intro: command_trace.command_failed)
  next
    case True
    let ?pre = "[CsLow, SpiTx [0x06] HAL_OK, CsHigh, CsLow, SpiTx ([0xC7]) HAL_OK, CsHigh]"
    let ?h1 = "h\<lparr>spi_status := tl (tl (spi_status h)), bus := bus h @ ?pre\<rparr>"
    have run: "W25Q128_EraseChip h = W25Q128_WaitForWriteEnd ?h1"
      using we True
      by (simp add: W25Q128_EraseChip_def write_enable_run hal_defs Let_def)
    from wait_after [of ?h1 h ?pre]
    obtain t0 evs where
      b: "bus (snd (W25Q128_WaitForWriteEnd ?h1)) = bus h @ ?pre @ Tick t0 # evs" and
      p: "busy_poll (t0 + 5000) evs (fst (W25Q128_WaitForWriteEnd ?h1))"
      by auto
    from command_trace.issued [OF p, of "[0xC7]"] b
    show ?thesis unfolding run by auto
  qed
qed

lemma write_page_rejected:
  "n > 256 \<Longrightarrow>
   W25Q128_WritePage h a buf n = (W25Q128_ERROR, h\<lparr>bus := bus h @ [WritePageCall a n]\<rparr>)"
  by (simp add: W25Q128_WritePage_def Let_def)

lemma write_page_trace:
  assumes n: "n \<le> 256"
  shows "\<exists>evs. bus (snd (W25Q128_WritePage h a buf n)) = bus h @ WritePageCall a n # evs \<and>
               program_trace a (take n buf) evs (fst (W25Q128_WritePage h a buf n))"
proof (cases "next_status (spi_status h) = HAL_OK")
  case False
  then show ?thesis using n
    by (auto simp: W25Q128_WritePage_def write_enable_run hal_defs Let_def
          intro: program_trace.enable_failed)
next
  case we: True
  show ?thesis
  proof (cases "next_status (tl (spi_status h)) = HAL_OK")
    case False
    then show ?thesis using we n
      by (auto simp: W25Q128_WritePage_def write_enable_run hal_defs Let_def
            intro: program_trace.command_failed)
  next
    case cmd: True
    show ?thesis
    proof (cases "next_status (tl (tl (spi_status h))) = HAL_OK")
      case False
      then show ?thesis using we cmd n
        by (auto simp: W25Q128_WritePage_def write_enable_run hal_defs Let_def
              intro: program_trace.data_failed)
    next
      case True
      let ?pre = "[WritePageCall a n, CsLow, SpiTx [0x06] HAL_OK, CsHigh,
                   CsLow, SpiTx (0x02 # addr_bytes a) HAL_OK, SpiTx (take n buf) HAL_OK, CsHigh]"
      let ?h1 = "h\<lparr>spi_status := tl (tl (tl (spi_status h))), bus := bus h @ ?pre\<rparr>"
      have run: "W25Q128_WritePage h a buf n = W25Q128_WaitForWriteEnd ?h1"
        using we cmd True n
        by (simp add: W25Q128_WritePage_def write_enable_run hal_defs Let_def)
      from wait_after [of ?h1 h ?pre]
      obtain t0 evs where
        b: "bus (snd (W25Q128_WaitForWriteEnd ?h1)) = bus h @ ?pre @ Tick t0 # evs" and
        p: "busy_poll (t0 + 5000) evs (fst (W25Q128_WaitForWriteEnd ?h1))"
        by auto
      from program_trace.issued [OF p, of a "take n buf"] b
      show ?thesis unfolding run by auto
    qed
  qed
qed

subsection \<open>What the grammars imply\<close>

lemma command_trace_cs: "command_trace cmd evs r \<Longrightarrow> cs_run False evs = Some False"
  by (erule command_trace.cases) (simp_all add: cs_run_append busy_poll_cs)

lemma program_trace_cs: "program_trace a data evs r \<Longrightarrow> cs_run False evs = Some False"
  by (erule program_trace.cases) (simp_all add: cs_run_append busy_poll_cs)

lemma program_trace_calls: "program_trace a data evs r \<Longrightarrow> page_calls evs = []"
  by (erule program_trace.cases) (simp_all add: busy_poll_calls)

lemma command_trace_paired:
  assumes "command_trace (c # bs) evs r" and "c \<noteq> 0x06"
  shows "write_enable_paired 0 (spi_commands evs)"
  using assms
proof (cases rule: command_trace.cases)
  case (issued t0 evs')
  from busy_poll_commands [OF issued(2)] obtain k where
    "spi_commands evs' = replicate (Suc k) 0x05" by blast
  then show ?thesis using issued(1) assms(2) paired_polls [of 0 k]
    by (simp add: needs_write_enable_def)
qed (simp_all add: needs_write_enable_def)

lemma program_trace_commands:
  assumes "program_trace a data evs r"
  shows "write_enable_paired 0 (spi_commands evs) \<and>
         (r = W25Q128_OK \<longrightarrow> (\<exists>k. spi_commands evs = [0x06, 0x02] @ replicate (Suc k) 0x05))"
  using assms
proof (cases rule: program_trace.cases)
  case (issued t0 evs')
  from busy_poll_commands [OF issued(2)] obtain k where
    "spi_commands evs' = replicate (Suc k) 0x05" by blast
  then show ?thesis using issued(1) paired_polls [of 0 k]
    by (simp add: needs_write_enable_def addr_bytes_def)
qed (simp_all add: needs_write_enable_def addr_bytes_def)

lemma cs_run_not_pending:
  "cs_run a xs = Some False \<Longrightarrow> xs = [] \<or> last xs \<noteq> CsLow"
  by (induction a xs rule: cs_run.induct) (auto split: if_splits)

lemma spi_commands_skip: "e \<noteq> CsLow \<Longrightarrow> spi_commands (e # ys) = spi_commands ys"
  by (cases e) simp_all

lemma spi_commands_append:
  "xs = [] \<or> last xs \<noteq> CsLow \<Longrightarrow>
   spi_commands (xs @ ys) = spi_commands xs @ spi_commands ys"
  by (induction xs rule: spi_commands.induct) (auto simp: spi_commands_skip split: if_splits)

lemma write_loop_step:
  assumes "0 < remaining"
    and "wl = (if 256 - unat a mod 256 > remaining then remaining else 256 - unat a mod 256)"
  shows "W25Q128_Write_loop h a buf remaining =
         (case W25Q128_WritePage h a buf wl of
            (r, h1) \<Rightarrow>
              if r \<noteq> W25Q128_OK then (W25Q128_ERROR, h1)
              else W25Q128_Write_loop h1 (a + of_nat wl) (drop wl buf) (remaining - wl))"
  unfolding assms(2) using assms(1)
  by (subst W25Q128_Write_loop.simps) (simp add: Let_def)

lemma page_calls_append: "page_calls (xs @ ys) = page_calls xs @ page_calls ys"
  by (induction xs rule: page_calls.induct) simp_all

lemma write_loop_trace:
  "\<exists>evs. bus (snd (W25Q128_Write_loop h a buf remaining)) = bus h @ evs \<and>
         cs_run False evs = Some False \<and>
         contiguous a (page_calls evs) \<and>
         page_bounded (page_calls evs) \<and>
         sum_list (map snd (page_calls evs)) \<le> remaining \<and>
         (fst (W25Q128_Write_loop h a buf remaining) = W25Q128_OK \<longrightarrow>
            sum_list (map snd (page_calls evs)) = remaining) \<and>
         write_enable_paired 0 (spi_commands evs)"
proof (induction h a buf remaining rule: W25Q128_Write_loop.induct)
  case (1 hflash current_address current_buffer remaining)
  show ?case
  proof (cases "remaining > 0")
    case False
    then have "W25Q128_Write_loop hflash current_address current_buffer remaining =
               (W25Q128_OK, hflash)"
      by (subst W25Q128_Write_loop.simps) simp
    then show ?thesis using False by (simp add: page_bounded_def)
  next
    case pos: True
    define off where "off = unat current_address mod 256"
    define full where "full = 256 - off"
    define wl where "wl = (if full > remaining then remaining else full)"
    have off: "off < 256" by (simp add: off_def)
    have wl: "0 < wl" "wl \<le> remaining" "wl \<le> 256" "off + wl \<le> 256"
      using pos off by (auto simp: wl_def full_def)
    have wl_eq: "wl = (if 256 - unat current_address mod 256 > remaining then remaining
                       else 256 - unat current_address mod 256)"
      by (simp add: wl_def full_def off_def)
    note step = write_loop_step [OF pos wl_eq, of hflash current_buffer]
    obtain r h1 where wp:
      "W25Q128_WritePage hflash current_address current_buffer wl = (r, h1)"
      by (cases "W25Q128_WritePage hflash current_address current_buffer wl") auto
    from write_page_trace [OF wl(3), of hflash current_address current_buffer] wp
    obtain ev1 where
      b1: "bus h1 = bus hflash @ WritePageCall current_address wl # ev1" and
      pt: "program_trace current_address (take wl current_buffer) ev1 r"
      by auto
    note cs1 = program_trace_cs [OF pt]
    note calls1 = program_trace_calls [OF pt]
    note cmds1 = program_trace_commands [OF pt]
    show ?thesis
    proof (cases "r = W25Q128_OK")
      case False
      then have run: "W25Q128_Write_loop hflash current_address current_buffer remaining =
                      (W25Q128_ERROR, h1)"
        by (simp add: step wp)
      show ?thesis
        unfolding run using b1 cs1 calls1 cmds1 wl
        by (simp add: page_bounded_def off_def)
    next
      case True
      let ?a' = "current_address + of_nat wl"
      let ?b' = "drop wl current_buffer"
      have run: "W25Q128_Write_loop hflash current_address current_buffer remaining =
                 W25Q128_Write_loop h1 ?a' ?b' (remaining - wl)"
        using True by (simp add: step wp)
      have "\<exists>evs. bus (snd (W25Q128_Write_loop h1 ?a' ?b' (remaining - wl))) = bus h1 @ evs \<and>
              cs_run False evs = Some False \<and>
              contiguous ?a' (page_calls evs) \<and>
              page_bounded (page_calls evs) \<and>
              sum_list (map snd (page_calls evs)) \<le> remaining - wl \<and>
              (fst (W25Q128_Write_loop h1 ?a' ?b' (remaining - wl)) = W25Q128_OK \<longrightarrow>
                 sum_list (map snd (page_calls evs)) = remaining - wl) \<and>
              write_enable_paired 0 (spi_commands evs)"
        using "1.IH" [OF pos off_def full_def wl_def [unfolded atomize_eq] wp [symmetric]] True
        by simp
      then obtain ev2 where
        b2: "bus (snd (W25Q128_Write_loop h1 ?a' ?b' (remaining - wl))) = bus h1 @ ev2" and
        cs2: "cs_run False ev2 = Some False" and
        ct2: "contiguous ?a' (page_calls ev2)" and
        pb2: "page_bounded (page_calls ev2)" and
        le2: "sum_list (map snd (page_calls ev2)) \<le> remaining - wl" and
        eq2: "fst (W25Q128_Write_loop h1 ?a' ?b' (remaining - wl)) = W25Q128_OK \<longrightarrow>
                sum_list (map snd (page_calls ev2)) = remaining - wl" and
        we2: "write_enable_paired 0 (spi_commands ev2)"
        by blast
      from cmds1 True obtain k where
        k: "spi_commands ev1 = [0x06, 0x02] @ replicate (Suc k) 0x05" by blast
      have sc: "spi_commands (ev1 @ ev2) = spi_commands ev1 @ spi_commands ev2"
        using cs_run_not_pending [OF cs1] by (rule spi_commands_append)
      have we: "write_enable_paired 0 (spi_commands (WritePageCall current_address wl # ev1 @ ev2))"
        using we2 paired_after_polls [of 0 k "spi_commands ev2"]
        by (simp add: sc k needs_write_enable_def)
      have "bus (snd (W25Q128_Write_loop h1 ?a' ?b' (remaining - wl))) =
            bus hflash @ (WritePageCall current_address wl # ev1 @ ev2)"
        using b1 b2 by simp
      moreover have "cs_run False (WritePageCall current_address wl # ev1 @ ev2) = Some False"
        using cs1 cs2 by (simp add: cs_run_append)
      moreover have "page_calls (WritePageCall current_address wl # ev1 @ ev2) =
                     (current_address, wl) # page_calls ev2"
        using calls1 by (simp add: page_calls_append)
      ultimately show ?thesis
        unfolding run using ct2 pb2 le2 eq2 we wl
        by (intro exI [of _ "WritePageCall current_address wl # ev1 @ ev2"])
           (simp add: page_bounded_def off_def)
    qed
  qed
qed

section \<open>Chip-select discipline of the driver\<close>

lemma disciplined_ext:
  "bus h' = bus h @ evs \<Longrightarrow> cs_run False evs = Some False \<Longrightarrow> cs_disciplined (emitted h h')"
  by (simp add: emitted_def cs_disciplined_def)

lemma read_id_cs: "cs_disciplined (emitted h (snd (snd (snd (W25Q128_ReadID h)))))"
  by (simp add: W25Q128_ReadID_def hal_defs Let_def emitted_def cs_disciplined_def)

lemma read_jedec_cs: "cs_disciplined (emitted h (snd (snd (W25Q128_ReadJEDECID h))))"
  by (simp add: W25Q128_ReadJEDECID_def hal_defs Let_def emitted_def cs_disciplined_def)

lemma read_status_cs: "cs_disciplined (emitted h (snd (snd (W25Q128_ReadStatusRegister h))))"
  by (simp add: W25Q128_ReadStatusRegister_def hal_defs Let_def emitted_def cs_disciplined_def)

lemma write_enable_cs: "cs_disciplined (emitted h (snd (W25Q128_WriteEnable h)))"
  by (simp add: W25Q128_WriteEnable_def hal_defs Let_def emitted_def cs_disciplined_def)

lemma write_disable_cs: "cs_disciplined (emitted h (snd (W25Q128_WriteDisable h)))"
  by (simp add: W25Q128_WriteDisable_def hal_defs Let_def emitted_def cs_disciplined_def)

lemma read_cs: "cs_disciplined (emitted h (snd (snd (W25Q128_Read h a n))))"
  by (simp add: W25Q128_Read_def hal_defs Let_def emitted_def cs_disciplined_def)

lemma power_down_cs: "cs_disciplined (emitted h (snd (W25Q128_PowerDown h)))"
  by (simp add: W25Q128_PowerDown_def hal_defs Let_def emitted_def cs_disciplined_def)

lemma wake_up_cs: "cs_disciplined (emitted h (snd (W25Q128_WakeUp h)))"
  by (simp add: W25Q128_WakeUp_def hal_defs Let_def emitted_def cs_disciplined_def)

lemma init_cs: "cs_disciplined (emitted (CS_HIGH h) (W25Q128_Init h))"
  by (simp add: W25Q128_Init_def W25Q128_WakeUp_def hal_defs Let_def emitted_def
        cs_disciplined_def)

lemma wait_cs: "cs_disciplined (emitted h (snd (W25Q128_WaitForWriteEnd h)))"
proof -
  from wait_trace [of h] obtain t0 evs where
    "bus (snd (W25Q128_WaitForWriteEnd h)) = bus h @ Tick t0 # evs"
    "busy_poll (t0 + 5000) evs (fst (W25Q128_WaitForWriteEnd h))"
    by blast
  then show ?thesis
    by (intro disciplined_ext [of _ _ "Tick t0 # evs"]) (simp_all add: busy_poll_cs)
qed

lemma erase_sector_cs: "cs_disciplined (emitted h (snd (W25Q128_EraseSector h a)))"
  using erase_sector_trace [of h a] by (auto intro: disciplined_ext command_trace_cs)

lemma erase_block_cs: "cs_disciplined (emitted h (snd (W25Q128_EraseBlock64KB h a)))"
  using erase_block_trace [of h a] by (auto intro: disciplined_ext command_trace_cs)

lemma erase_chip_cs: "cs_disciplined (emitted h (snd (W25Q128_EraseChip h)))"
  using erase_chip_trace [of h] by (auto intro: disciplined_ext command_trace_cs)

lemma write_page_cs: "cs_disciplined (emitted h (snd (W25Q128_WritePage h a buf n)))"
proof (cases "n \<le> 256")
  case True
  from write_page_trace [OF True, of h a buf] obtain evs where
    "bus (snd (W25Q128_WritePage h a buf n)) = bus h @ WritePageCall a n # evs"
    "program_trace a (take n buf) evs (fst (W25Q128_WritePage h a buf n))"
    by blast
  then show ?thesis
    by (intro disciplined_ext [of _ _ "WritePageCall a n # evs"])
       (simp_all add: program_trace_cs)
next
  case False
  then show ?thesis
    by (simp add: write_page_rejected emitted_def cs_disciplined_def)
qed

lemma write_cs: "cs_disciplined (emitted h (snd (W25Q128_Write h a buf n)))"
  using write_loop_trace [of h a buf n]
  by (auto simp: W25Q128_Write_def intro: disciplined_ext)

text \<open>C6. Every driver operation keeps the chip-select discipline, whatever status the
  SPI transfers return at any step: in the events it adds to the log, bytes travel only
  while chip-select is asserted, every assertion is followed by exactly one release, and
  chip-select is released when the operation returns. (\<open>W25Q128_Init\<close> first drives the
  line high; the discipline is that of what follows.)\<close>

theorem chip_select_discipline:
  "cs_disciplined (emitted h (snd (snd (snd (W25Q128_ReadID h))))) \<and>
   cs_disciplined (emitted h (snd (snd (W25Q128_ReadJEDECID h)))) \<and>
   cs_disciplined (emitted h (snd (snd (W25Q128_ReadStatusRegister h)))) \<and>
   cs_disciplined (emitted h (snd (W25Q128_WaitForWriteEnd h))) \<and>
   cs_disciplined (emitted h (snd (W25Q128_WriteEnable h))) \<and>
   cs_disciplined (emitted h (snd (W25Q128_WriteDisable h))) \<and>
   cs_disciplined (emitted h (snd (snd (W25Q128_Read h a n)))) \<and>
   cs_disciplined (emitted h (snd (W25Q128_WritePage h a buf n))) \<and>
   cs_disciplined (emitted h (snd (W25Q128_Write h a buf n))) \<and>
   cs_disciplined (emitted h (snd (W25Q128_EraseSector h a))) \<and>
   cs_disciplined (emitted h (snd (W25Q128_EraseBlock64KB h a))) \<and>
   cs_disciplined (emitted h (snd (W25Q128_EraseChip h))) \<and>
   cs_disciplined (emitted h (snd (W25Q128_PowerDown h))) \<and>
   cs_disciplined (emitted h (snd (W25Q128_WakeUp h))) \<and>
   cs_disciplined (emitted (CS_HIGH h) (W25Q128_Init h))"
  by (intro conjI read_id_cs read_jedec_cs read_status_cs wait_cs write_enable_cs
        write_disable_cs read_cs write_page_cs write_cs erase_sector_cs erase_block_cs
        erase_chip_cs power_down_cs wake_up_cs init_cs)

lemma receive_fails_read:
  "fst (W25Q128_Read receive_fails 0x012345 2) = W25Q128_ERROR \<and>
   emitted receive_fails (snd (snd (W25Q128_Read receive_fails 0x012345 2))) =
     [CsLow, SpiTx [0x03, 0x01, 0x23, 0x45] HAL_OK, SpiRx [0xDE, 0xAD] HAL_TIMEOUT, CsHigh]"
  by (simp add: receive_fails_def W25Q128_Read_def hal_defs Let_def emitted_def
        next_status_def addr_bytes_def)

theorem chip_select_discipline_witness:
  "fst (W25Q128_Read receive_fails 0x012345 2) = W25Q128_ERROR \<and>
   cs_disciplined [CsLow, SpiTx [0x03, 0x01, 0x23, 0x45] HAL_OK, SpiRx [0xDE, 0xAD] HAL_TIMEOUT, CsHigh]"
  using chip_select_discipline [where h = receive_fails and a = "0x012345" and n = 2]
    receive_fails_read
  by simp

section \<open>Write-enable pairing\<close>

lemma command_trace_ok_commands:
  assumes "command_trace (c # bs) evs W25Q128_OK"
  shows "\<exists>k. spi_commands evs = [0x06, c] @ replicate (Suc k) 0x05"
  using assms
proof (cases rule: command_trace.cases)
  case (issued t0 evs')
  from busy_poll_commands [OF issued(2)] obtain k where
    "spi_commands evs' = replicate (Suc k) 0x05" by blast
  then show ?thesis using issued(1) by simp
qed

lemma erase_sector_paired:
  "write_enable_paired 0 (spi_commands (emitted h (snd (W25Q128_EraseSector h a)))) \<and>
   (fst (W25Q128_EraseSector h a) = W25Q128_OK \<longrightarrow>
      (\<exists>k. spi_commands (emitted h (snd (W25Q128_EraseSector h a))) =
             [0x06, 0x20] @ replicate (Suc k) 0x05))"
proof -
  from erase_sector_trace [of h a] obtain evs where
    b: "bus (snd (W25Q128_EraseSector h a)) = bus h @ evs" and
    t: "command_trace (0x20 # addr_bytes a) evs (fst (W25Q128_EraseSector h a))"
    by blast
  show ?thesis
    using command_trace_paired [OF t] command_trace_ok_commands [of "0x20" "addr_bytes a" evs] t
    by (auto simp: emitted_append [OF b])
qed

lemma erase_block_paired:
  "write_enable_paired 0 (spi_commands (emitted h (snd (W25Q128_EraseBlock64KB h a)))) \<and>
   (fst (W25Q128_EraseBlock64KB h a) = W25Q128_OK \<longrightarrow>
      (\<exists>k. spi_commands (emitted h (snd (W25Q128_EraseBlock64KB h a))) =
             [0x06, 0xD8] @ replicate (Suc k) 0x05))"
proof -
  from erase_block_trace [of h a] obtain evs where
    b: "bus (snd (W25Q128_EraseBlock64KB h a)) = bus h @ evs" and
    t: "command_trace (0xD8 # addr_bytes a) evs (fst (W25Q128_EraseBlock64KB h a))"
    by blast
  show ?thesis
    using command_trace_paired [OF t] command_trace_ok_commands [of "0xD8" "addr_bytes a" evs] t
    by (auto simp: emitted_append [OF b])
qed

lemma erase_chip_paired:
  "write_enable_paired 0 (spi_commands (emitted h (snd (W25Q128_EraseChip h)))) \<and>
   (fst (W25Q128_EraseChip h) = W25Q128_OK \<longrightarrow>
      (\<exists>k. spi_commands (emitted h (snd (W25Q128_EraseChip h))) =
             [0x06, 0xC7] @ replicate (Suc k) 0x05))"
proof -
  from erase_chip_trace [of h] obtain evs where
    b: "bus (snd (W25Q128_EraseChip h)) = bus h @ evs" and
    t: "command_trace [0xC7] evs (fst (W25Q128_EraseChip h))"
    by blast
  show ?thesis
    using command_trace_paired [OF t] command_trace_ok_commands [of "0xC7" "[]" evs] t
    by (auto simp: emitted_append [OF b])
qed

lemma write_page_paired:
  "write_enable_paired 0 (spi_commands (emitted h (snd (W25Q128_WritePage h a buf n)))) \<and>
   (fst (W25Q128_WritePage h a buf n) = W25Q128_OK \<longrightarrow>
      (\<exists>k. spi_commands (emitted h (snd (W25Q128_WritePage h a buf n))) =
             [0x06, 0x02] @ replicate (Suc k) 0x05))"
proof (cases "n \<le> 256")
  case True
  from write_page_trace [OF True, of h a buf] obtain evs where
    b: "bus (snd (W25Q128_WritePage h a buf n)) = bus h @ WritePageCall a n # evs" and
    t: "program_trace a (take n buf) evs (fst (W25Q128_WritePage h a buf n))"
    by blast
  show ?thesis
    using program_trace_commands [OF t] by (simp add: emitted_append [OF b])
next
  case False
  then show ?thesis by (simp add: write_page_rejected emitted_def)
qed

lemma write_paired:
  "write_enable_paired 0 (spi_commands (emitted h (snd (W25Q128_Write h a buf n))))"
proof -
  from write_loop_trace [of h a buf n] obtain evs where
    b: "bus (snd (W25Q128_Write h a buf n)) = bus h @ evs" and
    p: "write_enable_paired 0 (spi_commands evs)"
    unfolding W25Q128_Write_def by blast
  show ?thesis using p by (simp add: emitted_append [OF b])
qed

text \<open>C7. In the opcodes that a page program, a multi-page write, a sector erase, a 64 KiB
  block erase or a chip erase puts on the bus, every program or erase opcode comes right
  after exactly one write-enable opcode \<open>0x06\<close>; when the operation succeeds the opcodes are
  the write-enable, the program or erase opcode, and status reads.\<close>

theorem write_enable_pairing:
  "write_enable_paired 0 (spi_commands (emitted h (snd (W25Q128_WritePage h a buf n)))) \<and>
   (fst (W25Q128_WritePage h a buf n) = W25Q128_OK \<longrightarrow>
      (\<exists>k. spi_commands (emitted h (snd (W25Q128_WritePage h a buf n))) =
             [0x06, 0x02] @ replicate (Suc k) 0x05)) \<and>
   write_enable_paired 0 (spi_commands (emitted h (snd (W25Q128_Write h a buf n)))) \<and>
   write_enable_paired 0 (spi_commands (emitted h (snd (W25Q128_EraseSector h a)))) \<and>
   (fst (W25Q128_EraseSector h a) = W25Q128_OK \<longrightarrow>
      (\<exists>k. spi_commands (emitted h (snd (W25Q128_EraseSector h a))) =
             [0x06, 0x20] @ replicate (Suc k) 0x05)) \<and>
   write_enable_paired 0 (spi_commands (emitted h (snd (W25Q128_EraseBlock64KB h a)))) \<and>
   (fst (W25Q128_EraseBlock64KB h a) = W25Q128_OK \<longrightarrow>
      (\<exists>k. spi_commands (emitted h (snd (W25Q128_EraseBlock64KB h a))) =
             [0x06, 0xD8] @ replicate (Suc k) 0x05)) \<and>
   write_enable_paired 0 (spi_commands (emitted h (snd (W25Q128_EraseChip h)))) \<and>
   (fst (W25Q128_EraseChip h) = W25Q128_OK \<longrightarrow>
      (\<exists>k. spi_commands (emitted h (snd (W25Q128_EraseChip h))) =
             [0x06, 0xC7] @ replicate (Suc k) 0x05))"
  using write_page_paired [of h a buf n] write_paired [of h a buf n]
    erase_sector_paired [of h a] erase_block_paired [of h a] erase_chip_paired [of h]
  by blast

lemma idle_erase_sector:
  "fst (W25Q128_EraseSector idle_flash 0x1000) = W25Q128_OK \<and>
   emitted idle_flash (snd (W25Q128_EraseSector idle_flash 0x1000)) =
     [CsLow, SpiTx [0x06] HAL_OK, CsHigh,
      CsLow, SpiTx [0x20, 0x00, 0x10, 0x00] HAL_OK, CsHigh,
      Tick 0, CsLow, SpiTx [0x05] HAL_OK, SpiRx [0] HAL_OK, CsHigh, Tick 0]"
  by (simp add: idle_flash_def W25Q128_EraseSector_def W25Q128_WriteEnable_def
        W25Q128_WaitForWriteEnd_def W25Q128_WaitForWriteEnd_loop.simps
        W25Q128_ReadStatusRegister_def HAL_GetTick_def hal_defs Let_def emitted_def
        next_status_def addr_bytes_def)

theorem write_enable_pairing_witness:
  "fst (W25Q128_EraseSector idle_flash 0x1000) = W25Q128_OK \<and>
   spi_commands (emitted idle_flash (snd (W25Q128_EraseSector idle_flash 0x1000))) =
     [0x06, 0x20, 0x05] \<and>
   write_enable_paired 0 [0x06, 0x20, 0x05] \<and>
   \<not> write_enable_paired 0 [0x20, 0x05] \<and>
   \<not> write_enable_paired 0 [0x06, 0x06, 0x20, 0x05]"
  using write_enable_pairing [where h = idle_flash and a = "0x1000"] idle_erase_sector
  by (simp add: needs_write_enable_def)

section \<open>The chunks of a multi-page write\<close>

text \<open>C1, as amended. For every call of \<open>W25Q128_Write\<close> with an address and a buffer, on
  any hardware, the program-page calls it makes are not empty, satisfy
  \<open>a mod 256 + n \<le> 256\<close>, and follow each other from the address on; their lengths sum to
  at most the length of the buffer, and to exactly that length when the write returns
  \<open>W25Q128_OK\<close>.\<close>

theorem write_chunks_in_pages:
  "page_bounded (page_calls (emitted h (snd (W25Q128_Write h addr buf (length buf))))) \<and>
   contiguous addr (page_calls (emitted h (snd (W25Q128_Write h addr buf (length buf))))) \<and>
   sum_list (map snd (page_calls (emitted h (snd (W25Q128_Write h addr buf (length buf))))))
     \<le> length buf \<and>
   (fst (W25Q128_Write h addr buf (length buf)) = W25Q128_OK \<longrightarrow>
      sum_list (map snd (page_calls (emitted h (snd (W25Q128_Write h addr buf (length buf))))))
        = length buf)"
proof -
  from write_loop_trace [of h addr buf "length buf"] obtain evs where
    b: "bus (snd (W25Q128_Write h addr buf (length buf))) = bus h @ evs" and
    p: "contiguous addr (page_calls evs)" "page_bounded (page_calls evs)"
       "sum_list (map snd (page_calls evs)) \<le> length buf"
       "fst (W25Q128_Write h addr buf (length buf)) = W25Q128_OK \<longrightarrow>
          sum_list (map snd (page_calls evs)) = length buf"
    unfolding W25Q128_Write_def by blast
  show ?thesis using p by (simp add: emitted_append [OF b])
qed

lemmas run_defs = W25Q128_Write_def W25Q128_Write_loop.simps W25Q128_WritePage_def
  W25Q128_WriteEnable_def W25Q128_WaitForWriteEnd_def W25Q128_WaitForWriteEnd_loop.simps
  W25Q128_ReadStatusRegister_def HAL_GetTick_def hal_defs Let_def emitted_def next_status_def

lemma unaligned_write_calls:
  "fst (W25Q128_Write idle_flash 0x80 (replicate 768 0xA5) 768) = W25Q128_OK \<and>
   page_calls (emitted idle_flash (snd (W25Q128_Write idle_flash 0x80 (replicate 768 0xA5) 768))) =
     [(0x80, 128), (0x100, 256), (0x200, 256), (0x300, 128)]"
  by (simp add: idle_flash_def run_defs)

theorem write_chunks_in_pages_witness:
  "fst (W25Q128_Write idle_flash 0x80 (replicate 768 0xA5) 768) = W25Q128_OK \<and>
   page_calls (emitted idle_flash (snd (W25Q128_Write idle_flash 0x80 (replicate 768 0xA5) 768))) =
     [(0x80, 128), (0x100, 256), (0x200, 256), (0x300, 128)] \<and>
   page_bounded [(0x80, 128), (0x100, 256), (0x200, 256), (0x300, 128)] \<and>
   contiguous 0x80 [(0x80, 128), (0x100, 256), (0x200, 256), (0x300, 128)] \<and>
   sum_list (map snd [(0x80 :: u32, 128 :: nat), (0x100, 256), (0x200, 256), (0x300, 128)]) = 768"
  using write_chunks_in_pages [of idle_flash "0x80" "replicate 768 0xA5"] unaligned_write_calls
  by simp

text \<open>C1, as stated, fails where a program-page call fails: the write stops there, and
  the lengths of the calls made do not add up to the length of the buffer.\<close>

theorem write_chunks_counterexample:
  "fst (W25Q128_Write dead_bus 0 (replicate 300 0xA5) 300) = W25Q128_ERROR \<and>
   page_calls (emitted dead_bus (snd (W25Q128_Write dead_bus 0 (replicate 300 0xA5) 300))) =
     [(0, 256)] \<and>
   sum_list (map snd [(0 :: u32, 256 :: nat)]) \<noteq> length (replicate 300 (0xA5 :: u8))"
  by (simp add: dead_bus_def run_defs)

section \<open>The protocol engine\<close>

lemma host_sends_fields [simp]:
  "uart_in (io (host_sends xs hb)) = xs"
  "uart_out (io (host_sends xs hb)) = uart_out (io hb)"
  "uart_tx_status (io (host_sends xs hb)) = uart_tx_status (io hb)"
  "spi_status (io (host_sends xs hb)) = spi_status (io hb)"
  "spi_miso (io (host_sends xs hb)) = spi_miso (io hb)"
  "ticks (io (host_sends xs hb)) = ticks (io hb)"
  "bus (io (host_sends xs hb)) = bus (io hb)"
  "total_bytes_written (host_sends xs hb) = total_bytes_written hb"
  "total_bytes_read (host_sends xs hb) = total_bytes_read hb"
  "rx_buffer (host_sends xs hb) = rx_buffer hb"
  by (simp_all add: host_sends_def)

lemma host_sends_twice [simp]: "host_sends xs (host_sends ys hb) = host_sends xs hb"
  by (simp add: host_sends_def)

lemma receive_data_ok:
  "length xs = n \<Longrightarrow>
   BOOT_ReceiveData (host_sends (xs @ rest) hb) n = (BOOT_OK, xs, host_sends rest hb)"
  by (simp add: BOOT_ReceiveData_def HAL_UART_Receive_def host_sends_def)

lemma send_response_fields [simp]:
  "uart_out (io (snd (BOOT_SendResponse hb c))) = uart_out (io hb) @ [c]"
  "uart_in (io (snd (BOOT_SendResponse hb c))) = uart_in (io hb)"
  "bus (io (snd (BOOT_SendResponse hb c))) = bus (io hb)"
  "spi_status (io (snd (BOOT_SendResponse hb c))) = spi_status (io hb)"
  "spi_miso (io (snd (BOOT_SendResponse hb c))) = spi_miso (io hb)"
  "ticks (io (snd (BOOT_SendResponse hb c))) = ticks (io hb)"
  "total_bytes_written (snd (BOOT_SendResponse hb c)) = total_bytes_written hb"
  "total_bytes_read (snd (BOOT_SendResponse hb c)) = total_bytes_read hb"
  by (simp_all add: BOOT_SendResponse_def HAL_UART_Transmit_def Let_def)

lemma process_command:
  "BOOT_Process (host_sends (0xAA # 0x55 # c # rest) hb) =
     (if c = BOOT_CMD_WRITE then snd (BOOT_HandleWrite (host_sends rest hb))
      else if c = BOOT_CMD_READ then snd (BOOT_HandleRead (host_sends rest hb))
      else if c = BOOT_CMD_ERASE_SECTOR then snd (BOOT_HandleEraseSector (host_sends rest hb))
      else if c = BOOT_CMD_ERASE_CHIP then snd (BOOT_HandleEraseChip (host_sends rest hb))
      else if c = BOOT_CMD_GET_INFO then snd (BOOT_HandleGetInfo (host_sends rest hb))
      else snd (BOOT_SendResponse (host_sends rest hb) BOOT_NACK))"
  by (simp add: BOOT_Process_def HAL_UART_Receive_def BOOT_ReceiveData_def host_sends_def Let_def)

lemma handle_write_bad_length:
  assumes "length lenb = 4" and "le32 lenb = 0 \<or> le32 lenb > 4096"
  shows "BOOT_HandleWrite (host_sends (lenb @ rest) hb) =
         (BOOT_ERROR, snd (BOOT_SendResponse (host_sends rest hb) BOOT_NACK))"
  using assms(2)
  by (auto simp: BOOT_HandleWrite_def receive_data_ok [OF assms(1)] Let_def)

lemma handle_read_bad_length:
  assumes "length lenb = 4" and "le32 lenb = 0 \<or> le32 lenb > 4096"
  shows "BOOT_HandleRead (host_sends (lenb @ rest) hb) =
         (BOOT_ERROR, snd (BOOT_SendResponse (host_sends rest hb) BOOT_NACK))"
  using assms(2)
  by (auto simp: BOOT_HandleRead_def receive_data_ok [OF assms(1)] Let_def)

text \<open>C8. For every WRITE frame whose length field is 0 or greater than 4096, the engine
  hands the single byte NACK to the host right after the length: the handler returns
  \<open>BOOT_ERROR\<close>, the bytes behind the length field (the address first) are still unread,
  nothing has happened on the SPI bus, and the counter is unchanged.\<close>

theorem write_length_rejected:
  assumes "length lenb = 4" and "le32 lenb = 0 \<or> le32 lenb > 4096"
  shows "fst (BOOT_HandleWrite (host_sends (lenb @ rest) hb)) = BOOT_ERROR \<and>
         uart_out (io (BOOT_Process (host_sends ([0xAA, 0x55, 0x01] @ lenb @ rest) hb))) =
           uart_out (io hb) @ [0x1F] \<and>
         uart_in (io (BOOT_Process (host_sends ([0xAA, 0x55, 0x01] @ lenb @ rest) hb))) = rest \<and>
         bus (io (BOOT_Process (host_sends ([0xAA, 0x55, 0x01] @ lenb @ rest) hb))) =
           bus (io hb) \<and>
         total_bytes_written (BOOT_Process (host_sends ([0xAA, 0x55, 0x01] @ lenb @ rest) hb)) =
           total_bytes_written hb"
  by (simp add: process_command handle_write_bad_length [OF assms])

theorem write_length_rejected_witness:
  "length [0x01, 0x10, 0x00, 0x00 :: u8] = 4 \<and>
   le32 [0x01, 0x10, 0x00, 0x00] = 0x1001 \<and>
   uart_out (io (BOOT_Process (host_sends
      ([0xAA, 0x55, 0x01] @ [0x01, 0x10, 0x00, 0x00] @ [0x80, 0x00, 0x00, 0x00, 0xA5])
      fresh_session))) = [0x1F] \<and>
   uart_in (io (BOOT_Process (host_sends
      ([0xAA, 0x55, 0x01] @ [0x01, 0x10, 0x00, 0x00] @ [0x80, 0x00, 0x00, 0x00, 0xA5])
      fresh_session))) = [0x80, 0x00, 0x00, 0x00, 0xA5]"
proof -
  have l: "le32 [0x01, 0x10, 0x00, 0x00] = 0x1001"
    by (simp add: le32_def)
  have "uart_out (io fresh_session) = []"
    by (simp add: fresh_session_def idle_flash_def)
  with write_length_rejected [of "[0x01, 0x10, 0x00, 0x00]" "[0x80, 0x00, 0x00, 0x00, 0xA5]"
      fresh_session] l
  show ?thesis by simp
qed

text \<open>C10. For every READ frame whose length field is 0 or greater than 4096, the engine
  hands the single byte NACK to the host before it reads the address: the handler returns
  \<open>BOOT_ERROR\<close>, the bytes behind the length field are still unread, nothing has happened
  on the SPI bus, and the counter is unchanged.\<close>

theorem read_length_rejected:
  assumes "length lenb = 4" and "le32 lenb = 0 \<or> le32 lenb > 4096"
  shows "fst (BOOT_HandleRead (host_sends (lenb @ rest) hb)) = BOOT_ERROR \<and>
         uart_out (io (BOOT_Process (host_sends ([0xAA, 0x55, 0x02] @ lenb @ rest) hb))) =
           uart_out (io hb) @ [0x1F] \<and>
         uart_in (io (BOOT_Process (host_sends ([0xAA, 0x55, 0x02] @ lenb @ rest) hb))) = rest \<and>
         bus (io (BOOT_Process (host_sends ([0xAA, 0x55, 0x02] @ lenb @ rest) hb))) =
           bus (io hb) \<and>
         total_bytes_read (BOOT_Process (host_sends ([0xAA, 0x55, 0x02] @ lenb @ rest) hb)) =
           total_bytes_read hb"
  by (simp add: process_command handle_read_bad_length [OF assms])

theorem read_length_rejected_witness:
  "length [0x00, 0x00, 0x00, 0x00 :: u8] = 4 \<and>
   le32 [0x00, 0x00, 0x00, 0x00] = 0 \<and>
   uart_out (io (BOOT_Process (host_sends
      ([0xAA, 0x55, 0x02] @ [0x00, 0x00, 0x00, 0x00] @ [0x00, 0x10, 0x00, 0x00])
      fresh_session))) = [0x1F] \<and>
   uart_in (io (BOOT_Process (host_sends
      ([0xAA, 0x55, 0x02] @ [0x00, 0x00, 0x00, 0x00] @ [0x00, 0x10, 0x00, 0x00])
      fresh_session))) = [0x00, 0x10, 0x00, 0x00] \<and>
   bus (io (BOOT_Process (host_sends
      ([0xAA, 0x55, 0x02] @ [0x00, 0x00, 0x00, 0x00] @ [0x00, 0x10, 0x00, 0x00])
      fresh_session))) = []"
proof -
  have l: "le32 [0x00, 0x00, 0x00, 0x00] = 0"
    by (simp add: le32_def)
  have "uart_out (io fresh_session) = []" "bus (io fresh_session) = []"
    by (simp_all add: fresh_session_def idle_flash_def)
  with read_length_rejected [of "[0x00, 0x00, 0x00, 0x00]" "[0x00, 0x10, 0x00, 0x00]"
      fresh_session] l
  show ?thesis by simp
qed

subsection \<open>Bytes before the start markers\<close>

lemma process_discards:
  "a \<noteq> 0xAA \<or> b \<noteq> 0x55 \<Longrightarrow> BOOT_Process (host_sends (a # b # rest) hb) = host_sends rest hb"
  by (auto simp: BOOT_Process_def HAL_UART_Receive_def host_sends_def Let_def)

lemma loop_discards:
  "length p = 2 * k \<Longrightarrow> \<forall>b \<in> set p. b \<noteq> 0xAA \<and> b \<noteq> 0x55 \<Longrightarrow>
   BOOT_Loop k (host_sends (p @ rest) hb) = host_sends rest hb"
proof (induction k arbitrary: p)
  case 0
  then show ?case by simp
next
  case (Suc k)
  then obtain a b p' where p: "p = a # b # p'"
    by (cases p; cases "tl p") auto
  with Suc.prems have "length p' = 2 * k" "\<forall>b \<in> set p'. b \<noteq> 0xAA \<and> b \<noteq> 0x55" "a \<noteq> 0xAA"
    by auto
  then show ?case
    using Suc.IH [of p'] by (simp add: p process_discards)
qed

lemma loop_numeral [simp]:
  "BOOT_Loop (numeral n) hb = BOOT_Loop (pred_numeral n) (BOOT_Process hb)"
  by (simp add: numeral_eq_Suc)

lemma process_starved: "BOOT_Process (host_sends [] hb) = host_sends [] hb"
  by (simp add: BOOT_Process_def HAL_UART_Receive_def host_sends_def Let_def)

lemma loop_then_process: "BOOT_Loop (k + 1) hb = BOOT_Process (BOOT_Loop k hb)"
  by (induction k arbitrary: hb) simp_all

text \<open>C3, as amended. \<open>BOOT_Process\<close> takes the host's bytes two at a time. For every
  prefix of even length made of bytes other than \<open>0xAA\<close> and \<open>0x55\<close>, whatever follows it,
  the calls of \<open>BOOT_Process\<close> that consume the prefix change nothing else (no ACK, no
  NACK), and the next call does what it would have done had the prefix not been sent.\<close>

theorem resync_even_prefix:
  assumes "even (length p)" and "\<forall>b \<in> set p. b \<noteq> 0xAA \<and> b \<noteq> 0x55"
  shows "BOOT_Loop (length p div 2) (host_sends (p @ frame) hb) = host_sends frame hb \<and>
         BOOT_Loop (length p div 2 + 1) (host_sends (p @ frame) hb) =
           BOOT_Process (host_sends frame hb)"
proof -
  from assms(1) have "length p = 2 * (length p div 2)" by auto
  from loop_discards [OF this assms(2)]
  have "BOOT_Loop (length p div 2) (host_sends (p @ frame) hb) = host_sends frame hb" .
  then show ?thesis by (simp only: loop_then_process simp_thms)
qed

theorem resync_even_prefix_witness:
  "even (length [0x00, 0x11 :: u8]) \<and>
   BOOT_Loop 1 (host_sends ([0x00, 0x11] @ [0xAA, 0x55, 0xFF]) fresh_session) =
     host_sends [0xAA, 0x55, 0xFF] fresh_session \<and>
   uart_out (io (BOOT_Loop 2 (host_sends ([0x00, 0x11] @ [0xAA, 0x55, 0xFF]) fresh_session))) =
     [0x1F]"
proof -
  have p: "\<forall>b \<in> set [0x00, 0x11 :: u8]. b \<noteq> 0xAA \<and> b \<noteq> 0x55" by simp
  have e: "even (length [0x00, 0x11 :: u8])" by simp
  have d: "length [0x00, 0x11 :: u8] div 2 = 1" "length [0x00, 0x11 :: u8] div 2 + 1 = 2"
    by simp_all
  have o: "uart_out (io (BOOT_Process (host_sends [0xAA, 0x55, 0xFF] fresh_session))) = [0x1F]"
    by (simp add: process_command fresh_session_def idle_flash_def)
  from resync_even_prefix [OF e p, of "[0xAA, 0x55, 0xFF]" fresh_session, unfolded d] e o
  show ?thesis by simp
qed

text \<open>C3, as stated, fails for a prefix of odd length: after the single byte \<open>00\<close> the
  two-byte reads take \<open>00 AA\<close> and then \<open>55 FF\<close>, neither is the pair of markers, and the
  command \<open>0xFF\<close>, which alone is answered with NACK, gets no answer although all the
  input has been consumed.\<close>

theorem resync_counterexample:
  "uart_out (io (BOOT_Process (host_sends [0xAA, 0x55, 0xFF] fresh_session))) = [0x1F] \<and>
   uart_out (io (BOOT_Loop 2 (host_sends ([0x00] @ [0xAA, 0x55, 0xFF]) fresh_session))) = [] \<and>
   uart_in (io (BOOT_Loop 2 (host_sends ([0x00] @ [0xAA, 0x55, 0xFF]) fresh_session))) = [] \<and>
   uart_out (io (BOOT_Loop 5 (host_sends ([0x00] @ [0xAA, 0x55, 0xFF]) fresh_session))) = []"
  by (simp add: process_command process_discards process_starved fresh_session_def
        idle_flash_def)

subsection \<open>GET\_INFO\<close>

lemma read_id_uart_out: "uart_out (snd (snd (snd (W25Q128_ReadID h)))) = uart_out h"
  by (simp add: W25Q128_ReadID_def hal_defs Let_def)

lemma read_jedec_uart_out: "uart_out (snd (snd (W25Q128_ReadJEDECID h))) = uart_out h"
  by (simp add: W25Q128_ReadJEDECID_def hal_defs Let_def)

lemma send_data_out:
  "length data = n \<Longrightarrow> uart_out (io (snd (BOOT_SendData hb data n))) = uart_out (io hb) @ data"
  by (simp add: BOOT_SendData_def HAL_UART_Transmit_def Let_def)

lemma get_info_response:
  assumes id: "W25Q128_ReadID (io hb) = (W25Q128_OK, m, d, h2)"
    and jedec: "W25Q128_ReadJEDECID h2 = (W25Q128_OK, [j0, j1, j2], h3)"
  shows "uart_out (io (snd (BOOT_HandleGetInfo hb))) =
         uart_out (io hb) @
           [0x79, m, d, j0, j1, j2, 0x00, 0x00, 0x00, 0x01, 0x00, 0x01, 0x00, 0x10]"
proof -
  have "uart_out h2 = uart_out (io hb)"
    using read_id_uart_out [of "io hb"] id by simp
  moreover have "uart_out h3 = uart_out h2"
    using read_jedec_uart_out [of h2] jedec by simp
  ultimately show ?thesis
    by (simp add: BOOT_HandleGetInfo_def id jedec Let_def send_data_out)
qed

text \<open>C2, as amended. For the frame \<open>AA 55 05\<close>, when the driver returns the identifiers
  \<open>(0xEF, 0x17)\<close> and the JEDEC identifier \<open>EF 40 18\<close>, the bytes handed to the host are
  exactly \<open>79 EF 17 EF 40 18 00 00 00 01 00 01 00 10\<close>: ACK, then the 13-byte block of the
  identifiers, the capacity \<open>0x01000000\<close>, the page size \<open>0x0100\<close> and the sector size
  \<open>0x1000\<close>, each little-endian.\<close>

theorem get_info_response_bytes:
  assumes "W25Q128_ReadID (io (host_sends rest hb)) = (W25Q128_OK, 0xEF, 0x17, h2)"
    and "W25Q128_ReadJEDECID h2 = (W25Q128_OK, [0xEF, 0x40, 0x18], h3)"
  shows "uart_out (io (BOOT_Process (host_sends ([0xAA, 0x55, 0x05] @ rest) hb))) =
         uart_out (io hb) @
           [0x79, 0xEF, 0x17, 0xEF, 0x40, 0x18, 0x00, 0x00, 0x00, 0x01, 0x00, 0x01, 0x00, 0x10]"
  using get_info_response [OF assms] by (simp add: process_command)

lemma chip_ids:
  "W25Q128_ReadID (io (host_sends [] w25q128_session)) =
     (W25Q128_OK, 0xEF, 0x17,
      w25q128_chip\<lparr>spi_miso := [0xEF, 0x40, 0x18],
        bus := [CsLow, SpiTx [0x90, 0x00, 0x00, 0x00] HAL_OK, SpiRx [0xEF, 0x17] HAL_OK, CsHigh]\<rparr>) \<and>
   W25Q128_ReadJEDECID
     (w25q128_chip\<lparr>spi_miso := [0xEF, 0x40, 0x18],
        bus := [CsLow, SpiTx [0x90, 0x00, 0x00, 0x00] HAL_OK, SpiRx [0xEF, 0x17] HAL_OK, CsHigh]\<rparr>) =
     (W25Q128_OK, [0xEF, 0x40, 0x18],
      w25q128_chip\<lparr>spi_miso := [],
        bus := [CsLow, SpiTx [0x90, 0x00, 0x00, 0x00] HAL_OK, SpiRx [0xEF, 0x17] HAL_OK, CsHigh,
                CsLow, SpiTx [0x9F] HAL_OK, SpiRx [0xEF, 0x40, 0x18] HAL_OK, CsHigh]\<rparr>)"
  by (simp add: w25q128_session_def w25q128_chip_def host_sends_def W25Q128_ReadID_def
        W25Q128_ReadJEDECID_def hal_defs Let_def next_status_def)

theorem get_info_response_bytes_witness:
  "uart_out (io (BOOT_Process (host_sends ([0xAA, 0x55, 0x05] @ []) w25q128_session))) =
     [0x79, 0xEF, 0x17, 0xEF, 0x40, 0x18, 0x00, 0x00, 0x00, 0x01, 0x00, 0x01, 0x00, 0x10]"
  using get_info_response_bytes [OF chip_ids [THEN conjunct1] chip_ids [THEN conjunct2]]
  by (simp add: w25q128_session_def w25q128_chip_def)

text \<open>C2, as stated, names fifteen bytes ending in \<open>10 00 10\<close>; the engine hands over
  fourteen, ending in the sector size \<open>00 10\<close>.\<close>

theorem get_info_counterexample:
  "uart_out (io (BOOT_Process (host_sends [0xAA, 0x55, 0x05] w25q128_session))) =
     [0x79, 0xEF, 0x17, 0xEF, 0x40, 0x18, 0x00, 0x00, 0x00, 0x01, 0x00, 0x01, 0x00, 0x10] \<and>
   [0x79, 0xEF, 0x17, 0xEF, 0x40, 0x18, 0x00, 0x00, 0x00, 0x01, 0x00, 0x01, 0x00, 0x10] \<noteq>
   [0x79, 0xEF, 0x17, 0xEF, 0x40, 0x18, 0x00, 0x00, 0x00, 0x01, 0x00, 0x01, 0x10, 0x00,
    0x10 :: u8]"
proof -
  have "uart_out (io w25q128_session) = []"
    by (simp add: w25q128_session_def w25q128_chip_def)
  then show ?thesis
    using get_info_response [OF chip_ids [THEN conjunct1] chip_ids [THEN conjunct2]]
    by (simp add: process_command)
qed

subsection \<open>WRITE with a wrong CRC\<close>

lemma receive_payload:
  "length payload = n \<Longrightarrow>
   BOOT_HandleWrite_receive (host_sends (payload @ rest) hb) acc n =
     (BOOT_OK, acc @ payload, host_sends rest hb)"
proof (induction n arbitrary: payload acc rule: less_induct)
  case (less n)
  show ?case
  proof (cases "n > 0")
    case False
    with less.prems show ?thesis
      by (subst BOOT_HandleWrite_receive.simps) simp
  next
    case True
    define chunk where "chunk = (if n > 256 then 256 else n)"
    have c: "0 < chunk" "chunk \<le> n" using True by (auto simp: chunk_def)
    have split: "payload @ rest = take chunk payload @ (drop chunk payload @ rest)"
      by simp
    have len: "length (take chunk payload) = chunk"
      using c less.prems by simp
    have recv: "BOOT_ReceiveData (host_sends (payload @ rest) hb) chunk =
                (BOOT_OK, take chunk payload, host_sends (drop chunk payload @ rest) hb)"
      unfolding split by (rule receive_data_ok [OF len])
    have "BOOT_HandleWrite_receive (host_sends (payload @ rest) hb) acc n =
          BOOT_HandleWrite_receive (host_sends (drop chunk payload @ rest) hb)
            (acc @ take chunk payload) (n - chunk)"
      using True recv
      by (subst BOOT_HandleWrite_receive.simps) (simp add: chunk_def Let_def)
    also have "\<dots> = (BOOT_OK, (acc @ take chunk payload) @ drop chunk payload,
                       host_sends rest hb)"
      using c less.prems by (intro less.IH) auto
    finally show ?thesis by simp
  qed
qed

lemma handle_write_bad_crc:
  assumes "length lenb = 4" and "le32 lenb \<noteq> 0" and "le32 lenb \<le> 4096"
    and "length addrb = 4" and "length payload = unat (le32 lenb)" and "length crcb = 2"
    and "le16 crcb \<noteq> BOOT_CalculateCRC16 payload (unat (le32 lenb))"
  shows "BOOT_HandleWrite (host_sends (lenb @ addrb @ payload @ crcb @ rest) hb) =
         (BOOT_CRC_ERR, snd (BOOT_SendResponse (host_sends rest hb) BOOT_NACK))"
proof -
  have ok: "\<not> (le32 lenb = 0 \<or> le32 lenb > 4096)"
    using assms(2,3) by (simp add: not_less)
  show ?thesis
    using ok assms(7)
    by (simp add: BOOT_HandleWrite_def Let_def
          receive_data_ok [OF assms(1)] receive_data_ok [OF assms(4)]
          receive_payload [OF assms(5), of _ _ "[]", simplified]
          receive_data_ok [OF assms(6)])
qed

text \<open>C4. For every WRITE frame with a length in range, as many payload bytes, and a
  trailing CRC that differs from the CRC-16 of the payload, the handler returns
  \<open>BOOT_CRC_ERR\<close> and the engine hands the single byte NACK to the host; the counter of
  bytes written is unchanged, and nothing has happened on the SPI bus: no event in the
  log (no program-page call, no transfer) and no transfer status consumed.\<close>

theorem write_bad_crc_is_atomic:
  assumes "length lenb = 4" and "le32 lenb \<noteq> 0" and "le32 lenb \<le> 4096"
    and "length addrb = 4" and "length payload = unat (le32 lenb)" and "length crcb = 2"
    and "le16 crcb \<noteq> BOOT_CalculateCRC16 payload (unat (le32 lenb))"
  shows "fst (BOOT_HandleWrite (host_sends (lenb @ addrb @ payload @ crcb @ rest) hb)) =
           BOOT_CRC_ERR \<and>
         uart_out (io (BOOT_Process
            (host_sends ([0xAA, 0x55, 0x01] @ lenb @ addrb @ payload @ crcb @ rest) hb))) =
           uart_out (io hb) @ [0x1F] \<and>
         total_bytes_written (BOOT_Process
            (host_sends ([0xAA, 0x55, 0x01] @ lenb @ addrb @ payload @ crcb @ rest) hb)) =
           total_bytes_written hb \<and>
         bus (io (BOOT_Process
            (host_sends ([0xAA, 0x55, 0x01] @ lenb @ addrb @ payload @ crcb @ rest) hb))) =
           bus (io hb) \<and>
         spi_status (io (BOOT_Process
            (host_sends ([0xAA, 0x55, 0x01] @ lenb @ addrb @ payload @ crcb @ rest) hb))) =
           spi_status (io hb) \<and>
         uart_in (io (BOOT_Process
            (host_sends ([0xAA, 0x55, 0x01] @ lenb @ addrb @ payload @ crcb @ rest) hb))) = rest"
  by (simp add: process_command handle_write_bad_crc [OF assms])

lemma crc_deadbeef: "BOOT_CalculateCRC16 [0xDE, 0xAD, 0xBE, 0xEF] 4 = 0x4097"
  by (simp add: BOOT_CalculateCRC16_def crc_update_def funpow8 crc_shift_def)

lemma le32_four: "le32 [0x04, 0x00, 0x00, 0x00] = 4"
  by (simp add: le32_def)

theorem write_bad_crc_is_atomic_witness:
  "le32 [0x04, 0x00, 0x00, 0x00] = 4 \<and>
   BOOT_CalculateCRC16 [0xDE, 0xAD, 0xBE, 0xEF] 4 = 0x4097 \<and>
   le16 [0x00, 0x00] = 0 \<and>
   uart_out (io (BOOT_Process (host_sends
     ([0xAA, 0x55, 0x01] @ [0x04, 0x00, 0x00, 0x00] @ [0x80, 0x00, 0x00, 0x00] @
      [0xDE, 0xAD, 0xBE, 0xEF] @ [0x00, 0x00] @ []) fresh_session))) = [0x1F] \<and>
   bus (io (BOOT_Process (host_sends
     ([0xAA, 0x55, 0x01] @ [0x04, 0x00, 0x00, 0x00] @ [0x80, 0x00, 0x00, 0x00] @
      [0xDE, 0xAD, 0xBE, 0xEF] @ [0x00, 0x00] @ []) fresh_session))) = [] \<and>
   total_bytes_written (BOOT_Process (host_sends
     ([0xAA, 0x55, 0x01] @ [0x04, 0x00, 0x00, 0x00] @ [0x80, 0x00, 0x00, 0x00] @
      [0xDE, 0xAD, 0xBE, 0xEF] @ [0x00, 0x00] @ []) fresh_session)) = 0"
proof -
  have f: "uart_out (io fresh_session) = []" "bus (io fresh_session) = []"
    "total_bytes_written fresh_session = 0"
    by (simp_all add: fresh_session_def idle_flash_def)
  have z: "le16 [0x00, 0x00] = 0" by (simp add: le16_def)
  have "le16 [0x00, 0x00] \<noteq> BOOT_CalculateCRC16 [0xDE, 0xAD, 0xBE, 0xEF]
          (unat (le32 [0x04, 0x00, 0x00, 0x00]))"
    by (simp add: z le32_four crc_deadbeef)
  from write_bad_crc_is_atomic [of "[0x04, 0x00, 0x00, 0x00]" "[0x80, 0x00, 0x00, 0x00]"
      "[0xDE, 0xAD, 0xBE, 0xEF]" "[0x00, 0x00]" "[]" fresh_session, OF _ _ _ _ _ _ this]
  show ?thesis
    using f z le32_four crc_deadbeef by simp
qed

text \<open>The same frame with its true CRC \<open>0x4097\<close> is programmed and acknowledged.\<close>

lemma write_good_crc_example:
  "uart_out (io (BOOT_Process (host_sends
     [0xAA, 0x55, 0x01, 0x04, 0x00, 0x00, 0x00, 0x80, 0x00, 0x00, 0x00,
      0xDE, 0xAD, 0xBE, 0xEF, 0x97, 0x40] fresh_session))) = [0x79] \<and>
   total_bytes_written (BOOT_Process (host_sends
     [0xAA, 0x55, 0x01, 0x04, 0x00, 0x00, 0x00, 0x80, 0x00, 0x00, 0x00,
      0xDE, 0xAD, 0xBE, 0xEF, 0x97, 0x40] fresh_session)) = 4 \<and>
   page_calls (bus (io (BOOT_Process (host_sends
     [0xAA, 0x55, 0x01, 0x04, 0x00, 0x00, 0x00, 0x80, 0x00, 0x00, 0x00,
      0xDE, 0xAD, 0xBE, 0xEF, 0x97, 0x40] fresh_session)))) = [(0x80, 4)]"
  by (simp add: BOOT_Process_def BOOT_HandleWrite_def BOOT_ReceiveData_def
        HAL_UART_Receive_def BOOT_HandleWrite_receive.simps BOOT_SendResponse_def
        HAL_UART_Transmit_def host_sends_def fresh_session_def idle_flash_def
        le32_def le16_def crc_deadbeef run_defs)

end
